theory Spec2Isabelle
  imports Main
begin

section \<open>JavaScript strings\<close>

text \<open>
  Source texts, paths and messages are strings of 8-bit characters. The texts the
  loaders rewrite are taken to be ASCII: the only white space is the ASCII white space
  and the only line terminators are line feed and carriage return.
\<close>

definition startsWith :: "string \<Rightarrow> string \<Rightarrow> bool" where
  \<comment> \<open>\<^verbatim>\<open>s.startsWith(p)\<close>\<close>
  "startsWith s p = (take (length p) s = p)"

fun js_join :: "string list \<Rightarrow> string \<Rightarrow> string" where
  \<comment> \<open>\<^verbatim>\<open>xs.join(sep)\<close>\<close>
  "js_join [] sep = []"
| "js_join [x] sep = x"
| "js_join (x # y # ys) sep = x @ sep @ js_join (y # ys) sep"

fun replace_str :: "string \<Rightarrow> string \<Rightarrow> string \<Rightarrow> string" where
  \<comment> \<open>\<^verbatim>\<open>s.replace(pat, rep)\<close> with a string pattern: the first occurrence only\<close>
  "replace_str [] pat rep = (if pat = [] then rep else [])"
| "replace_str (c # cs) pat rep =
     (if startsWith (c # cs) pat then rep @ drop (length pat) (c # cs)
      else c # replace_str cs pat rep)"

definition digit_char :: "nat \<Rightarrow> char" where
  "digit_char d = char_of (48 + d)"

fun string_of_nat :: "nat \<Rightarrow> string" where
  \<comment> \<open>the decimal rendering of a non-negative integer in a template string\<close>
  "string_of_nat n =
     (if n < 10 then [digit_char n] else string_of_nat (n div 10) @ [digit_char (n mod 10)])"

declare string_of_nat.simps [simp del]

section \<open>JavaScript objects\<close>

text \<open>
  An object is the list of its own properties in the order \<^verbatim>\<open>for ... in\<close> and
  \<^verbatim>\<open>Object.keys\<close> visit them, each key once: the keys that are array indices first, in
  ascending numeric order, then the other keys in the order in which they were added.
\<close>

definition has_key :: "(string \<times> 'a) list \<Rightarrow> string \<Rightarrow> bool" where
  "has_key kvs k = (k \<in> set (map fst kvs))"

definition is_digit :: "char \<Rightarrow> bool" where
  "is_digit c = (48 \<le> (of_char c :: nat) \<and> (of_char c :: nat) \<le> 57)"

definition array_index :: "string \<Rightarrow> nat option" where
  \<comment> \<open>the number a key stands for when it is an array index: a canonical decimal
      below \<open>2^32 - 1\<close>\<close>
  "array_index k =
     (if k \<noteq> [] \<and> list_all is_digit k \<and> (k = ''0'' \<or> hd k \<noteq> CHR ''0'') then
        (let n = foldl (\<lambda>a c. 10 * a + (of_char c - 48)) (0 :: nat) k
         in if n < 4294967295 then Some n else None)
      else None)"

fun insert_index :: "nat \<Rightarrow> string \<times> 'a \<Rightarrow> (string \<times> 'a) list \<Rightarrow> (string \<times> 'a) list" where
  \<comment> \<open>a new index key goes among the index keys, which come first in ascending order\<close>
  "insert_index n kv [] = [kv]"
| "insert_index n kv (p # ps) =
     (case array_index (fst p) of
        None \<Rightarrow> kv # p # ps
      | Some m \<Rightarrow> (if m < n then p # insert_index n kv ps else kv # p # ps))"

definition js_put :: "(string \<times> 'a) list \<Rightarrow> string \<Rightarrow> 'a \<Rightarrow> (string \<times> 'a) list" where
  \<comment> \<open>\<^verbatim>\<open>obj[k] = v\<close> on own properties: an existing key keeps its place, a new one is
      enumerated last unless it is an array index\<close>
  "js_put kvs k v =
     (if has_key kvs k then map (\<lambda>p. if fst p = k then (k, v) else p) kvs
      else (case array_index k of
              None \<Rightarrow> kvs @ [(k, v)]
            | Some n \<Rightarrow> insert_index n (k, v) kvs))"

definition for_in :: "(string \<times> 'a) list \<Rightarrow> (string \<times> 'a) list" where
  \<comment> \<open>the properties of an object as \<^verbatim>\<open>for ... in\<close> visits them, from the properties in the
      order in which the object literal lists them and the assignments add them\<close>
  "for_in written = foldl (\<lambda>obj (k, v). js_put obj k v) [] written"

section \<open>util.js: stringifyLoaders\<close>

text \<open>
  A query value is what the loader strings of this repository put into a query:
  \<^verbatim>\<open>undefined\<close>, \<^verbatim>\<open>null\<close>, a boolean, a string or an array of strings. A query is given
  by its properties in insertion order: the order in which the object literal lists
  them and later assignments add them.
\<close>

datatype qvalue = QUndefined | QNull | QBool bool | QStr string | QArray "string list"

datatype loader_entry =
    LoaderName string
  | LoaderObj string "(string \<times> qvalue) list option"

fun template_value :: "qvalue \<Rightarrow> string" where
  \<comment> \<open>the value inside a template string\<close>
  "template_value QUndefined = ''undefined''"
| "template_value QNull = ''null''"
| "template_value (QBool b) = (if b then ''true'' else ''false'')"
| "template_value (QStr s) = s"
| "template_value (QArray vs) = js_join vs '',''"

fun push_query :: "string list \<Rightarrow> string \<times> qvalue \<Rightarrow> string list" where
  \<comment> \<open>the body of the \<^verbatim>\<open>for ... in\<close> loop, on the array \<^verbatim>\<open>query\<close>\<close>
  "push_query query (k, v) =
     (if v \<noteq> QNull \<and> v \<noteq> QUndefined then
        (if v = QBool True then query @ [k]
         else (case v of
                 QArray vs \<Rightarrow> query @ [k @ ''[]='' @ js_join vs '','']
               | _ \<Rightarrow> query @ [k @ ''='' @ template_value v]))
      else query)"

definition stringifyLoader :: "loader_entry \<Rightarrow> string" where
  \<comment> \<open>the callback of \<^verbatim>\<open>loaders.map\<close>\<close>
  "stringifyLoader loader =
     (case loader of
        LoaderName s \<Rightarrow> s
      | LoaderObj name q \<Rightarrow>
          (let query = (case q of None \<Rightarrow> [] | Some kvs \<Rightarrow> foldl push_query [] (for_in kvs))
           in name @ (if query \<noteq> [] then ''?'' @ js_join query ''&'' else [])))"

definition stringifyLoaders :: "loader_entry list \<Rightarrow> string" where
  "stringifyLoaders loaders = js_join (map stringifyLoader loaders) ''!''"

subsection \<open>The chain descriptor as the specification words it\<close>

text \<open>
  The stage names joined by \<open>!\<close> in stage order; each stage with a non-empty query
  appends \<open>?\<close> and the pairs, joined by \<open>&\<close>, in the insertion order of the query. A
  pair renders as the bare key for true, as \<open>key[]=v1,v2,...\<close> for a list, not at all
  for a null or absent value, and as \<open>key=value\<close> for any other value: a string, or
  false.
\<close>

fun joined_by :: "string \<Rightarrow> string list \<Rightarrow> string" where
  "joined_by sep [] = []"
| "joined_by sep [p] = p"
| "joined_by sep (p # ps) = p @ sep @ joined_by sep ps"

fun render_pair :: "string \<times> qvalue \<Rightarrow> string list" where
  "render_pair (k, QUndefined) = []"
| "render_pair (k, QNull) = []"
| "render_pair (k, QBool True) = [k]"
| "render_pair (k, QBool False) = [k @ ''=false'']"
| "render_pair (k, QStr s) = [k @ ''='' @ s]"
| "render_pair (k, QArray vs) = [k @ ''[]='' @ joined_by '','' vs]"

definition spec_stage_text :: "loader_entry \<Rightarrow> string" where
  "spec_stage_text st =
     (case st of
        LoaderName s \<Rightarrow> s
      | LoaderObj name None \<Rightarrow> name
      | LoaderObj name (Some q) \<Rightarrow>
          (if q = [] then name
           else name @ ''?'' @ joined_by ''&'' (concat (map render_pair q))))"

definition spec_chain_descriptor :: "loader_entry list \<Rightarrow> string" where
  "spec_chain_descriptor loaders = joined_by ''!'' (map spec_stage_text loaders)"

subsection \<open>The chain descriptor of the code\<close>

text \<open>
  The same descriptor with the two points in which the code differs: the pairs come in
  the order in which \<^verbatim>\<open>for ... in\<close> visits the query, and \<open>?\<close> is appended only when
  at least one pair renders.
\<close>

definition stage_text :: "loader_entry \<Rightarrow> string" where
  "stage_text st =
     (case st of
        LoaderName s \<Rightarrow> s
      | LoaderObj name None \<Rightarrow> name
      | LoaderObj name (Some q) \<Rightarrow>
          (case concat (map render_pair (for_in q)) of
             [] \<Rightarrow> name
           | ps \<Rightarrow> name @ ''?'' @ joined_by ''&'' ps))"

definition chain_descriptor :: "loader_entry list \<Rightarrow> string" where
  "chain_descriptor loaders = joined_by ''!'' (map stage_text loaders)"

definition plain_query :: "loader_entry \<Rightarrow> bool" where
  \<comment> \<open>a stage on which the two orders and the two conditions for \<open>?\<close> agree: no key of
      its query is an array index or is written twice, and the query is empty or has a
      pair that renders\<close>
  "plain_query st =
     (case st of
        LoaderObj name (Some q) \<Rightarrow>
          distinct (map fst q) \<and> list_all (\<lambda>kv. array_index (fst kv) = None) q \<and>
          (q = [] \<or> concat (map render_pair q) \<noteq> [])
      | _ \<Rightarrow> True)"

section \<open>util.js: logWarn\<close>

text \<open>
  A log entry has a reason and, when the position is known, a line and a column.
  \<^verbatim>\<open>log.line && log.column\<close> is true when both are present and not zero.

  \<^verbatim>\<open>process.env.logLevel\<close> is \<open>None\<close> when the variable is unset or is not a number, and
  \<open>Some n\<close> when it is the decimal integer \<open>n\<close> (then \<^verbatim>\<open>logLevel > 0\<close> and
  \<^verbatim>\<open>parseInt(logLevel)\<close> read the same number).
\<close>

record log_entry =
  reason :: string
  line :: "nat option"
  column :: "nat option"

datatype emitted = EmitWarning string | EmitError string

definition truthy_num :: "nat option \<Rightarrow> bool" where
  "truthy_num v = (case v of None \<Rightarrow> False | Some n \<Rightarrow> n \<noteq> 0)"

definition num_text :: "nat option \<Rightarrow> string" where
  "num_text v = (case v of None \<Rightarrow> ''undefined'' | Some n \<Rightarrow> string_of_nat n)"

definition file_label :: string where
  \<comment> \<open>\<^verbatim>\<open>' File'\<close> followed by the full-width colon U+FF1A, in UTF-8\<close>
  "file_label = '' File'' @ [CHR 0xEF, CHR 0xBC, CHR 0x9A]"

definition log_message :: "string \<Rightarrow> string \<Rightarrow> string \<Rightarrow> string \<Rightarrow> string \<Rightarrow> log_entry \<Rightarrow> string" where
  \<comment> \<open>the text handed to \<^verbatim>\<open>emitWarning\<close> or \<^verbatim>\<open>emitError\<close>\<close>
  "log_message start label strip fin resourcePath log =
     (if truthy_num (line log) \<and> truthy_num (column log) then
        start @ label @ file_label @ resourcePath @ '':'' @ num_text (line log) @ '':'' @
          num_text (column log) @ [CHR 0x0A] @ '' '' @ replace_str (reason log) strip [] @ fin
      else
        start @ label @ file_label @ resourcePath @ [CHR 0x0A] @ '' '' @
          replace_str (reason log) strip [] @ fin)"

fun log_step :: "int \<Rightarrow> string \<Rightarrow> bool \<times> emitted list \<Rightarrow> log_entry \<Rightarrow> bool \<times> emitted list" where
  \<comment> \<open>the callback of \<^verbatim>\<open>logs.forEach\<close>, on the flag and the messages emitted so far\<close>
  "log_step lvl resourcePath (flag, out) log =
     (if startsWith (reason log) ''NOTE'' \<and> lvl \<le> 1 then
        (flag, out @ [EmitWarning
           (log_message ''noteStart'' ''NOTE'' ''NOTE: '' ''noteEnd'' resourcePath log)])
      else if startsWith (reason log) ''WARN'' \<and> lvl \<le> 2 then
        (flag, out @ [EmitWarning
           (log_message ''warnStart'' ''WARNING'' ''WARNING: '' ''warnEnd'' resourcePath log)])
      else if startsWith (reason log) ''ERROR'' \<and> lvl \<le> 3 then
        (True, out @ [EmitError
           (log_message ''errorStart'' ''ERROR'' ''ERROR: '' ''errorEnd'' resourcePath log)])
      else (flag, out))"

definition logWarn :: "int option \<Rightarrow> string \<Rightarrow> log_entry list \<Rightarrow> bool \<times> emitted list" where
  \<comment> \<open>the returned flag and the messages emitted on the loader context\<close>
  "logWarn logLevel resourcePath logs =
     (case logLevel of
        None \<Rightarrow> (False, [])
      | Some lvl \<Rightarrow>
          (if lvl > 0 then foldl (log_step lvl resourcePath) (False, []) logs
           else (False, [])))"

datatype severity = Note | Warn | Error | Other

definition severity_of :: "log_entry \<Rightarrow> severity" where
  \<comment> \<open>the severity a log entry carries: the prefix of its reason\<close>
  "severity_of log =
     (if startsWith (reason log) ''NOTE'' then Note
      else if startsWith (reason log) ''WARN'' then Warn
      else if startsWith (reason log) ''ERROR'' then Error
      else Other)"

section \<open>The host of loader.js\<close>

text \<open>
  What loader.js reads from its surroundings: the process environment, the file system,
  Node's \<^verbatim>\<open>path\<close> module, \<^verbatim>\<open>loader-utils\<close>, and the modules of this repository that
  are not among the source files at hand (\<^verbatim>\<open>lite/lite-enum\<close>, \<^verbatim>\<open>parser\<close>,
  \<^verbatim>\<open>templater/component_validator\<close>). Each is a parameter.
\<close>

record element =
  el_src :: "string option"    \<comment> \<open>the \<^verbatim>\<open>src\<close> attribute of an \<^verbatim>\<open>element\<close> tag\<close>
  el_name :: "string option"   \<comment> \<open>its \<^verbatim>\<open>name\<close> attribute\<close>

record host =
  device_level :: "string option"      \<comment> \<open>\<^verbatim>\<open>process.env.DEVICE_LEVEL\<close>\<close>
  ability_type :: "string option"      \<comment> \<open>\<^verbatim>\<open>process.env.abilityType\<close>\<close>
  ace_manifest_path :: "string option" \<comment> \<open>\<^verbatim>\<open>process.env.aceManifestPath\<close>\<close>
  project_path :: string               \<comment> \<open>\<^verbatim>\<open>process.env.projectPath\<close>\<close>
  log_level :: "int option"            \<comment> \<open>\<^verbatim>\<open>process.env.logLevel\<close>\<close>
  level_RICH :: string                 \<comment> \<open>\<^verbatim>\<open>DEVICE_LEVEL.RICH\<close>\<close>
  level_LITE :: string                 \<comment> \<open>\<^verbatim>\<open>DEVICE_LEVEL.LITE\<close>\<close>
  fs_exists :: "string \<Rightarrow> bool"        \<comment> \<open>\<^verbatim>\<open>fs.existsSync\<close>\<close>
  path_extname :: "string \<Rightarrow> string"
  path_dirname :: "string \<Rightarrow> string"
  path_basename :: "string \<Rightarrow> string"
  path_parse_name :: "string \<Rightarrow> string"   \<comment> \<open>\<^verbatim>\<open>path.parse(p).name\<close>\<close>
  path_join :: "string \<Rightarrow> string \<Rightarrow> string"
  path_resolve :: "string \<Rightarrow> string"       \<comment> \<open>\<^verbatim>\<open>path.resolve(p)\<close>\<close>
  path_resolve2 :: "string \<Rightarrow> string \<Rightarrow> string"
  stringify_request :: "string \<Rightarrow> string"  \<comment> \<open>\<^verbatim>\<open>loaderUtils.stringifyRequest(ctx, r)\<close>\<close>
  load_babel_module :: "string \<Rightarrow> string"  \<comment> \<open>\<^verbatim>\<open>loadBabelModule\<close>, which asks \<^verbatim>\<open>require.resolve\<close>\<close>
  babel_config :: string               \<comment> \<open>\<^verbatim>\<open>path.resolve(__dirname, "../babel.config.js")\<close>\<close>
  is_reserved_tag :: "string \<Rightarrow> bool"
  parse_fragment :: "string \<Rightarrow> element list"  \<comment> \<open>\<^verbatim>\<open>parseFragment(source).element\<close>\<close>

text \<open>The table \<^verbatim>\<open>defaultLoaders\<close>: paths the host resolves when the module loads.\<close>

record default_loaders =
  dl_main :: string
  dl_template :: string
  dl_style :: string
  dl_script :: string
  dl_json :: string
  dl_babel :: string
  dl_manifest :: string
  dl_resourceReferenceScript :: string

text \<open>The fields of \<^verbatim>\<open>config\<close> that the loader-string functions read.\<close>

record config =
  cfg_customLang :: "(string \<times> string list) list"
  cfg_lang :: "string option"
  cfg_source :: "string option"
  cfg_app :: bool

definition truthy_str :: "string option \<Rightarrow> bool" where
  \<comment> \<open>a string or \<^verbatim>\<open>undefined\<close> in a condition\<close>
  "truthy_str v = (case v of None \<Rightarrow> False | Some s \<Rightarrow> s \<noteq> [])"

definition exists_opt :: "host \<Rightarrow> string option \<Rightarrow> bool" where
  \<comment> \<open>\<^verbatim>\<open>fs.existsSync\<close> of a path that may be \<^verbatim>\<open>undefined\<close>\<close>
  "exists_opt h p = (case p of None \<Rightarrow> False | Some f \<Rightarrow> fs_exists h f)"

section \<open>loader.js: the loader strings\<close>

definition loadCustomLoader :: "host \<Rightarrow> config \<Rightarrow> string option" where
  "loadCustomLoader h cfg =
     (case cfg_lang cfg of
        None \<Rightarrow> None
      | Some l \<Rightarrow>
          (if l \<noteq> [] then
             (case map_of (cfg_customLang cfg) l of
                None \<Rightarrow> None
              | Some [] \<Rightarrow> None
              | Some (m # ms) \<Rightarrow> Some (load_babel_module h m))
           else None))"

definition concat_custom :: "loader_entry list \<Rightarrow> string option \<Rightarrow> loader_entry list" where
  \<comment> \<open>\<^verbatim>\<open>if (customLoader) { loaders = loaders.concat(customLoader) }\<close>\<close>
  "concat_custom loaders customLoader =
     (if truthy_str customLoader then loaders @ [LoaderName (the customLoader)] else loaders)"

definition mainLoaderString :: "default_loaders \<Rightarrow> string" where
  "mainLoaderString dl = stringifyLoaders [LoaderObj (dl_main dl) None]"

definition elementLoaderString :: "default_loaders \<Rightarrow> config \<Rightarrow> string" where
  "elementLoaderString dl cfg =
     stringifyLoaders [LoaderObj (dl_main dl)
       (Some [(''element'', if truthy_str (cfg_source cfg) then QUndefined else QBool True)])]"

definition templateLoaderString :: "default_loaders \<Rightarrow> config \<Rightarrow> string option \<Rightarrow> string" where
  "templateLoaderString dl cfg customLoader =
     stringifyLoaders
       (concat_custom [LoaderObj (dl_json dl) None, LoaderObj (dl_template dl) None] customLoader)"

definition styleLoaderString :: "default_loaders \<Rightarrow> config \<Rightarrow> string option \<Rightarrow> string" where
  "styleLoaderString dl cfg customLoader =
     stringifyLoaders
       (concat_custom [LoaderObj (dl_json dl) None, LoaderObj (dl_style dl) None] customLoader)"

definition isTargets :: "host \<Rightarrow> (string \<times> qvalue) list" where
  \<comment> \<open>the query object of the babel stage\<close>
  "isTargets h =
     [(''extends'', QStr (babel_config h))] @
     (if device_level h = Some (level_RICH h) then [(''targets'', QStr ''node 8'')] else [])"

definition path_query :: "string option \<Rightarrow> qvalue" where
  "path_query src = (case src of None \<Rightarrow> QUndefined | Some s \<Rightarrow> QStr s)"

definition scriptLoaders :: "host \<Rightarrow> default_loaders \<Rightarrow> config \<Rightarrow> string option \<Rightarrow> loader_entry list" where
  \<comment> \<open>the array \<^verbatim>\<open>loaders\<close> of \<^verbatim>\<open>scriptLoaderString\<close> when it is stringified\<close>
  "scriptLoaders h dl cfg customLoader =
     (let loaders = [LoaderObj (dl_script dl) None];
          loaders =
            (if truthy_str customLoader then loaders @ [LoaderName (the customLoader)]
             else loaders @ [LoaderObj (dl_babel dl) (Some (isTargets h))]
                          @ [LoaderObj (dl_resourceReferenceScript dl) None]);
          loaders =
            (if cfg_app cfg \<and> ability_type h = Some ''page'' \<and>
                exists_opt h (ace_manifest_path h)
             then loaders @
                    [LoaderObj (dl_manifest dl) (Some [(''path'', path_query (cfg_source cfg))])]
             else loaders)
      in loaders)"

definition scriptLoaderString :: "host \<Rightarrow> default_loaders \<Rightarrow> config \<Rightarrow> string option \<Rightarrow> string" where
  "scriptLoaderString h dl cfg customLoader = stringifyLoaders (scriptLoaders h dl cfg customLoader)"

definition configLoaderString :: "default_loaders \<Rightarrow> config \<Rightarrow> string" where
  "configLoaderString dl cfg = stringifyLoaders [LoaderObj (dl_json dl) None]"

definition dataLoaderString :: "default_loaders \<Rightarrow> config \<Rightarrow> string" where
  "dataLoaderString dl cfg = stringifyLoaders [LoaderObj (dl_json dl) None]"

definition getLoaderString :: "host \<Rightarrow> default_loaders \<Rightarrow> string \<Rightarrow> config \<Rightarrow> string option" where
  \<comment> \<open>\<open>None\<close> is \<^verbatim>\<open>undefined\<close>: no case of the switch matches\<close>
  "getLoaderString h dl type cfg =
     (let customLoader = loadCustomLoader h cfg in
      if type = ''main'' then Some (mainLoaderString dl)
      else if type = ''element'' then Some (elementLoaderString dl cfg)
      else if type = ''template'' then Some (templateLoaderString dl cfg customLoader)
      else if type = ''style'' then Some (styleLoaderString dl cfg customLoader)
      else if type = ''script'' then Some (scriptLoaderString h dl cfg customLoader)
      else if type = ''config'' then Some (configLoaderString dl cfg)
      else if type = ''data'' then Some (dataLoaderString dl cfg)
      else None)"

definition getRequireString :: "host \<Rightarrow> string option \<Rightarrow> string \<Rightarrow> string" where
  "getRequireString h loader filepath =
     ''require('' @
       stringify_request h
         (if truthy_str loader then ''!!'' @ the loader @ ''!'' @ filepath else filepath) @
     '')'' @ [CHR 0x0A]"

section \<open>loader.js: the component graph\<close>

text \<open>
  The table \<^verbatim>\<open>elements\<close> maps a key to a record object. A record is a plain object: a
  property holds \<^verbatim>\<open>true\<close> (a reserved name), a string (a parent path), a reference to
  another record object, or \<^verbatim>\<open>undefined\<close>. The loader never reads through a stored
  reference; it only tests it and uses it as a key, where every plain object reads
  \<^verbatim>\<open>[object Object]\<close>.
\<close>

datatype elval = EUndefined | ETrue | EStr string | EObj

type_synonym elrecord = "string \<Rightarrow> elval"

type_synonym elements = "string \<Rightarrow> elrecord option"

definition key_of :: "elval \<Rightarrow> string" where
  \<comment> \<open>a value used as a property key or inside a template string\<close>
  "key_of v = (case v of EUndefined \<Rightarrow> ''undefined'' | ETrue \<Rightarrow> ''true''
                 | EStr s \<Rightarrow> s | EObj \<Rightarrow> ''[object Object]'')"

definition truthy_el :: "elval \<Rightarrow> bool" where
  "truthy_el v = (case v of EUndefined \<Rightarrow> False | ETrue \<Rightarrow> True
                    | EStr s \<Rightarrow> s \<noteq> [] | EObj \<Rightarrow> True)"

definition empty_record :: elrecord where
  \<comment> \<open>the object literal \<^verbatim>\<open>{}\<close>\<close>
  "empty_record = (\<lambda>k. EUndefined)"

definition inherited_names :: "string list" where
  \<comment> \<open>the properties every plain object inherits from \<^verbatim>\<open>Object.prototype\<close>\<close>
  "inherited_names =
     [''constructor'', ''__proto__'', ''hasOwnProperty'', ''isPrototypeOf'',
      ''propertyIsEnumerable'', ''toLocaleString'', ''toString'', ''valueOf'',
      ''__defineGetter__'', ''__defineSetter__'', ''__lookupGetter__'', ''__lookupSetter__'']"

definition record_get :: "elrecord \<Rightarrow> string \<Rightarrow> elval" where
  \<comment> \<open>\<^verbatim>\<open>record[k]\<close>: the own property, else the inherited one\<close>
  "record_get r k =
     (if r k = EUndefined \<and> k \<in> set inherited_names then EObj else r k)"

definition record_set :: "elrecord \<Rightarrow> string \<Rightarrow> elval \<Rightarrow> elrecord" where
  \<comment> \<open>\<^verbatim>\<open>record[k] = v\<close>; assigning a value that is not an object to \<^verbatim>\<open>__proto__\<close>
      changes nothing\<close>
  "record_set r k v = (if k = ''__proto__'' \<and> v \<noteq> EObj then r else r(k := v))"

definition or_empty :: "elements \<Rightarrow> string \<Rightarrow> elrecord" where
  \<comment> \<open>\<^verbatim>\<open>elements[k] || {}\<close>\<close>
  "or_empty els k = (case els k of None \<Rightarrow> empty_record | Some r \<Rightarrow> r)"

record state =
  st_elements :: elements
  st_emitted :: "emitted list"   \<comment> \<open>the calls of \<^verbatim>\<open>emitWarning\<close> and \<^verbatim>\<open>emitError\<close>\<close>
  st_console :: "string list"    \<comment> \<open>the lines written by \<^verbatim>\<open>console.log\<close>\<close>

text \<open>The loader context: the resource and what its queries hold.\<close>

record loader_context =
  ctx_resourcePath :: string
  ctx_entry :: bool                    \<comment> \<open>\<^verbatim>\<open>resourceQuery.entry\<close> is set\<close>
  ctx_name :: "string option"          \<comment> \<open>\<^verbatim>\<open>resourceQuery.name\<close>\<close>
  ctx_parentPath :: "string option"    \<comment> \<open>\<^verbatim>\<open>resourceQuery.parentPath\<close>\<close>
  ctx_element :: bool                  \<comment> \<open>the loader option \<^verbatim>\<open>element\<close> is set\<close>
  ctx_entries :: "string list option"  \<comment> \<open>the keys of \<^verbatim>\<open>_compilation.entries\<close>\<close>

definition warn :: "host \<Rightarrow> loader_context \<Rightarrow> string \<Rightarrow> state \<Rightarrow> state" where
  \<comment> \<open>\<^verbatim>\<open>logWarn(_this, [{ reason }])\<close>, its flag dropped\<close>
  "warn h ctx r st =
     st\<lparr>st_emitted := st_emitted st @
          snd (logWarn (log_level h) (ctx_resourcePath ctx)
                 [\<lparr>reason = r, line = None, column = None\<rparr>])\<rparr>"

fun cut_at_dot :: "string \<Rightarrow> string" where
  \<comment> \<open>\<^verbatim>\<open>s.replace(/\..*$/, '')\<close>: cut at the first dot that no line break follows\<close>
  "cut_at_dot [] = []"
| "cut_at_dot (c # cs) =
     (if c = CHR ''.'' \<and> (\<forall>d \<in> set cs. d \<noteq> CHR 0x0A \<and> d \<noteq> CHR 0x0D) then []
      else c # cut_at_dot cs)"

definition getNameByPath :: "host \<Rightarrow> string \<Rightarrow> string" where
  "getNameByPath h resourcePath = cut_at_dot (path_basename h resourcePath)"

definition unit_name :: "host \<Rightarrow> loader_context \<Rightarrow> string" where
  \<comment> \<open>\<^verbatim>\<open>name\<close> in \<^verbatim>\<open>loader\<close>\<close>
  "unit_name h ctx =
     (if ctx_entry ctx then path_parse_name h (ctx_resourcePath ctx)
      else if truthy_str (ctx_name ctx) then the (ctx_name ctx)
      else getNameByPath h (ctx_resourcePath ctx))"

definition register_unit :: "loader_context \<Rightarrow> string \<Rightarrow> elements \<Rightarrow> elements \<times> elval" where
  \<comment> \<open>the registration at the head of \<^verbatim>\<open>loader\<close>: the table after it, and \<^verbatim>\<open>parentPath\<close>\<close>
  "register_unit ctx name els =
     (let rp = ctx_resourcePath ctx;
          parentPath = (if truthy_str (ctx_parentPath ctx) then the (ctx_parentPath ctx) else rp)
      in if ctx_entry ctx then
           (els(rp \<mapsto> record_set (or_empty els rp) name ETrue), EStr parentPath)
         else
           (let els1 = els(rp \<mapsto> record_set (or_empty els rp) ''parent'' (EStr parentPath))
            in case els1 parentPath of
                 None \<Rightarrow> (els1, EStr parentPath)
               | Some pr \<Rightarrow>
                   (if truthy_el (record_get pr ''parent'') then
                      (let target = (case els1 (key_of (record_get pr ''parent'')) of
                                       None \<Rightarrow> EUndefined | Some r \<Rightarrow> EObj)
                       in (els1(rp \<mapsto> record_set (or_empty els1 rp) ''parent'' target), target))
                    else (els1, EStr parentPath))))"

section \<open>loader.js: custom elements of a page\<close>

definition endsWith :: "string \<Rightarrow> string \<Rightarrow> bool" where
  "endsWith s p = (length p \<le> length s \<and> drop (length s - length p) s = p)"

definition lower_char :: "char \<Rightarrow> char" where
  "lower_char c =
     (let n = (of_char c :: nat) in if 65 \<le> n \<and> n \<le> 90 then char_of (n + 32) else c)"

definition toLowerCase :: "string \<Rightarrow> string" where
  "toLowerCase s = map lower_char s"

definition customLang :: "(string \<times> string list) list" where
  \<comment> \<open>\<^verbatim>\<open>options.lang\<close> in \<^verbatim>\<open>loader\<close>\<close>
  "customLang = [(''sass'', [''sass-loader'']), (''scss'', [''sass-loader'']),
                 (''less'', [''less-loader''])]"

fun checkEntry_keys :: "host \<Rightarrow> loader_context \<Rightarrow> string \<Rightarrow> string option \<Rightarrow> string list \<Rightarrow> state \<Rightarrow> state" where
  \<comment> \<open>the \<^verbatim>\<open>for ... of\<close> loop of \<^verbatim>\<open>checkEntry\<close>\<close>
  "checkEntry_keys h ctx filePath elementSrc [] st = st"
| "checkEntry_keys h ctx filePath elementSrc (key # keys) st =
     checkEntry_keys h ctx filePath elementSrc keys
       (if path_join h (path_resolve h (project_path h)) (key @ ''.hml'') = filePath then
          warn h ctx
            (''WARNING: The page '' @ [CHR 0x22] @
             (case elementSrc of None \<Rightarrow> ''undefined'' | Some s \<Rightarrow> s) @
             [CHR 0x22] @ '' configured in '' @ [CHR 0x27] @ ''config.json'' @ [CHR 0x27] @
             '' can not be uesd as a custom component.'' @
             ''To ensure that the debugging function is normal, please delete this page in '' @
             [CHR 0x27] @ ''config.json'' @ [CHR 0x27] @ ''.'') st
        else st)"

definition checkEntry :: "host \<Rightarrow> loader_context \<Rightarrow> string \<Rightarrow> string option \<Rightarrow> state \<Rightarrow> state" where
  "checkEntry h ctx filePath elementSrc st =
     (case ctx_entries ctx of
        None \<Rightarrow> st
      | Some keys \<Rightarrow> checkEntry_keys h ctx filePath elementSrc keys st)"

definition reserve_name :: "host \<Rightarrow> loader_context \<Rightarrow> elval \<Rightarrow> string \<Rightarrow> state \<Rightarrow> state" where
  \<comment> \<open>the collision check of \<^verbatim>\<open>loadPageCheckElementLength\<close> on the lower-cased name\<close>
  "reserve_name h ctx parentPath name st =
     (let k = key_of parentPath;
          r = or_empty (st_elements st) k;
          st1 = st\<lparr>st_elements := (st_elements st)(k \<mapsto> r)\<rparr>
      in if truthy_el (record_get r name) then
           warn h ctx
             (''ERROR: The element name can not be same with the page '' @ [CHR 0x22] @ name @
              [CHR 0x22] @ '' (ignore case).'') st1
         else st1\<lparr>st_elements := (st_elements st1)(k \<mapsto> record_set r name ETrue)\<rparr>)"

fun element_loop :: "host \<Rightarrow> default_loaders \<Rightarrow> loader_context \<Rightarrow> string \<Rightarrow> elval \<Rightarrow> element list \<Rightarrow> state \<Rightarrow> string \<Rightarrow> state \<times> string" where
  \<comment> \<open>the \<^verbatim>\<open>for\<close> loop of \<^verbatim>\<open>loadPageCheckElementLength\<close>, on the rest of \<^verbatim>\<open>frag.element\<close>
      and the output so far; either \<^verbatim>\<open>return ''\<close> ends it\<close>
  "element_loop h dl ctx resourcePath parentPath [] st output = (st, output)"
| "element_loop h dl ctx resourcePath parentPath (e # es) st output =
     (if truthy_str (el_src e) then
        (let src = (if \<not> endsWith (the (el_src e)) ''.hml'' then the (el_src e) @ ''.hml''
                    else the (el_src e));
             filePath = path_join h (path_dirname h resourcePath) src
         in if \<not> fs_exists h filePath \<and> (startsWith src ''/'' \<or> startsWith src ''.'') then
              (warn h ctx
                 (''ERROR: The file path of custom element does not exist, src: '' @ src) st, [])
            else
              (let name = toLowerCase
                     (if \<not> truthy_str (el_name e) then path_parse_name h src else the (el_name e));
                   st1 = reserve_name h ctx parentPath name st;
                   st2 = checkEntry h ctx filePath (el_src e) st1
               in element_loop h dl ctx resourcePath parentPath es st2
                    (output @
                     getRequireString h
                       (getLoaderString h dl ''element''
                          \<lparr>cfg_customLang = customLang, cfg_lang = None, cfg_source = Some src,
                           cfg_app = False\<rparr>)
                       (src @ ''?name='' @ name @ ''&parentPath='' @ key_of parentPath))))
      else
        (warn h ctx ''ERROR: src attributes must be set for custom elements.'' st, []))"

definition loadPageCheckElementLength :: "host \<Rightarrow> default_loaders \<Rightarrow> loader_context \<Rightarrow> element list \<Rightarrow> string \<Rightarrow> elval \<Rightarrow> state \<Rightarrow> state \<times> string" where
  "loadPageCheckElementLength h dl ctx frag resourcePath parentPath st =
     element_loop h dl ctx resourcePath parentPath frag st []"

section \<open>loader.js: the generated module code\<close>

text \<open>The pieces of generated code, as the template strings of loader.js hold them.\<close>

definition app_define_head :: string where
  "app_define_head =
     [CHR 0x0A] @ ''      $app_define$('' @ [CHR 0x27] @ ''@app-application/''"

definition app_define_args :: string where
  "app_define_args =
     [CHR 0x27] @
     '', [], function($app_require$, $app_exports$, $app_module$) {'' @
     [CHR 0x0A] @ ''      ''"

definition app_script_block :: string where
  "app_script_block =
     [CHR 0x0A] @
     ''      $app_script$($app_module$, $app_exports$, $app_require'' @
     ''$)'' @ [CHR 0x0A] @
     ''      if ($app_exports$.__esModule && $app_exports$.default)'' @
     '' {'' @ [CHR 0x0A] @
     ''        $app_module$.exports = $app_exports$.default'' @ [CHR 0x0A] @
     ''      }'' @ [CHR 0x0A] @ ''      ''"

definition app_style_block :: string where
  "app_style_block =
     [CHR 0x0A] @ ''      $app_module$.exports.style = $app_style$'' @
     [CHR 0x0A] @ ''      ''"

definition app_define_tail :: string where
  "app_define_tail =
     [CHR 0x0A] @ ''      })'' @ [CHR 0x0A] @ ''      ''"

definition app_bootstrap_head :: string where
  "app_bootstrap_head =
     ''$app_bootstrap$('' @ [CHR 0x27] @ ''@app-application/''"

definition bootstrap_tail :: string where
  "bootstrap_tail =
     [CHR 0x27] @ '',undefined,undefined)''"

definition lite_app_options :: string where
  "lite_app_options =
     ''var options=$app_script$'' @ [CHR 0x0A] @
     '' if ($app_script$.__esModule) {'' @ [CHR 0x0A, CHR 0x0A] @
     ''        options = $app_script$.default;'' @ [CHR 0x0A] @ '' }'' @
     [CHR 0x0A]"

definition lite_style_sheet :: string where
  "lite_style_sheet =
     ''options.styleSheet=$app_style$'' @ [CHR 0x0A]"

definition lite_app_tail :: string where
  "lite_app_tail =
     ''module.exports=new ViewModel(options);''"

definition component_define_head :: string where
  "component_define_head =
     [CHR 0x0A] @ ''$app_define$('' @ [CHR 0x27] @ ''@app-component/''"

definition component_define_args :: string where
  "component_define_args =
     [CHR 0x27] @
     '', [], function($app_require$, $app_exports$, $app_module$) {'' @
     [CHR 0x0A]"

definition component_script_block :: string where
  "component_script_block =
     [CHR 0x0A] @
     ''$app_script$($app_module$, $app_exports$, $app_require$)'' @
     [CHR 0x0A] @
     ''if ($app_exports$.__esModule && $app_exports$.default) {'' @
     [CHR 0x0A] @ ''$app_module$.exports = $app_exports$.default'' @
     [CHR 0x0A] @ ''}'' @ [CHR 0x0A]"

definition component_template_block :: string where
  "component_template_block =
     [CHR 0x0A] @ ''$app_module$.exports.template = $app_template$'' @
     [CHR 0x0A]"

definition component_style_block :: string where
  "component_style_block =
     [CHR 0x0A] @ ''$app_module$.exports.style = $app_style$'' @ [CHR 0x0A]"

definition component_define_tail :: string where
  "component_define_tail =
     [CHR 0x0A] @ ''})'' @ [CHR 0x0A]"

definition component_bootstrap_head :: string where
  "component_bootstrap_head =
     ''$app_bootstrap$('' @ [CHR 0x27] @ ''@app-component/''"

definition lite_page_options :: string where
  "lite_page_options =
     ''var options=$app_script$'' @ [CHR 0x0A] @
     '' if ($app_script$.__esModule) {'' @ [CHR 0x0A, CHR 0x0A] @
     ''      options = $app_script$.default;'' @ [CHR 0x0A] @ '' }'' @
     [CHR 0x0A]"

definition lite_page_no_script :: string where
  "lite_page_no_script =
     ''var options={}'' @ [CHR 0x0A]"

definition lite_page_tail :: string where
  "lite_page_tail =
     ''options.render=$app_template$;'' @ [CHR 0x0A] @
     ''module.exports=new ViewModel(options);''"

fun js_includes :: "string \<Rightarrow> string \<Rightarrow> bool" where
  \<comment> \<open>the text holds the pattern somewhere\<close>
  "js_includes [] p = (p = [])"
| "js_includes (c # cs) p = (startsWith (c # cs) p \<or> js_includes cs p)"

definition script_config :: "string \<Rightarrow> bool \<Rightarrow> config" where
  \<comment> \<open>the \<^verbatim>\<open>config\<close> object of a script or template asset: no declared language\<close>
  "script_config src isApp =
     \<lparr>cfg_customLang = customLang, cfg_lang = None, cfg_source = Some src, cfg_app = isApp\<rparr>"

definition style_config :: "string option \<Rightarrow> string \<Rightarrow> config" where
  "style_config lang src =
     \<lparr>cfg_customLang = customLang, cfg_lang = lang, cfg_source = Some src, cfg_app = False\<rparr>"

definition checkApp :: "host \<Rightarrow> loader_context \<Rightarrow> bool" where
  "checkApp h ctx =
     (if ability_type h = Some ''testrunner'' then True
      else ctx_resourcePath ctx =
             path_resolve2 h (project_path h)
               (if ability_type h = Some ''page'' then ''app.js''
                else (case ability_type h of None \<Rightarrow> ''undefined'' | Some a \<Rightarrow> a) @ ''.js''))"

definition loadApp :: "host \<Rightarrow> default_loaders \<Rightarrow> loader_context \<Rightarrow> string \<Rightarrow> bool \<Rightarrow> string \<Rightarrow> string" where
  "loadApp h dl ctx name isEntry source =
     (if checkApp h ctx then
        (let rp = ctx_resourcePath ctx;
             filename = replace_str rp (path_extname h rp) [];
             cssFileName = filename @ ''.css'';
             extcss = fs_exists h cssFileName;
             output =
               (if \<not> extcss then []
                else ''var $app_style$ = '' @
                     getRequireString h
                       (getLoaderString h dl ''style'' (style_config None cssFileName)) cssFileName);
             output = output @ ''var $app_script$ = '' @
                     getRequireString h
                       (getLoaderString h dl ''script'' (script_config rp True)) rp;
             output =
               (if device_level h = Some (level_RICH h) \<or> device_level h = Some ''card'' then
                  output @ app_define_head @ name @ app_define_args @ app_script_block @
                    (if extcss then app_style_block else []) @ app_define_tail @
                    (if isEntry then app_bootstrap_head @ name @ bootstrap_tail else [])
                else output);
             output =
               (if device_level h = Some (level_LITE h) then
                  output @ lite_app_options @ (if extcss then lite_style_sheet else []) @
                    lite_app_tail
                else output)
         in output)
      else if endsWith (ctx_resourcePath ctx) ''.js'' then source
      else [])"

definition loadPageFindCss :: "host \<Rightarrow> default_loaders \<Rightarrow> string \<Rightarrow> bool \<times> string" where
  \<comment> \<open>\<^verbatim>\<open>extcss\<close> and \<^verbatim>\<open>output\<close>\<close>
  "loadPageFindCss h dl filename =
     (if fs_exists h (filename @ ''.css'') then
        (True, ''var $app_style$ = '' @
           getRequireString h
             (getLoaderString h dl ''style'' (style_config None (filename @ ''.css'')))
             (filename @ ''.css''))
      else if fs_exists h (filename @ ''.less'') then
        (True, ''var $app_style$ = '' @
           getRequireString h
             (getLoaderString h dl ''style'' (style_config (Some ''less'') (filename @ ''.less'')))
             (filename @ ''.less''))
      else if fs_exists h (filename @ ''.scss'') then
        (True, ''var $app_style$ = '' @
           getRequireString h
             (getLoaderString h dl ''style'' (style_config (Some ''scss'') (filename @ ''.scss'')))
             (filename @ ''.scss''))
      else if fs_exists h (filename @ ''.sass'') then
        (True, ''var $app_style$ = '' @
           getRequireString h
             (getLoaderString h dl ''style'' (style_config (Some ''sass'') (filename @ ''.sass'')))
             (filename @ ''.sass''))
      else (False, []))"

definition loadPageFindJs :: "host \<Rightarrow> default_loaders \<Rightarrow> string \<Rightarrow> state \<Rightarrow> state \<times> bool \<times> string" where
  \<comment> \<open>the state after it, \<^verbatim>\<open>extscript\<close> and \<^verbatim>\<open>output\<close>\<close>
  "loadPageFindJs h dl filename st =
     (let jsFileName = filename @ ''.js'' in
      if \<not> fs_exists h jsFileName then
        (st\<lparr>st_console := st_console st @ [''missing '' @ jsFileName]\<rparr>, False, [])
      else
        (st, True, ''var $app_script$ = '' @
           getRequireString h
             (getLoaderString h dl ''script'' (script_config jsFileName False)) jsFileName))"

definition loadPageCheckRich :: "string \<Rightarrow> bool \<Rightarrow> bool \<Rightarrow> bool \<Rightarrow> string" where
  "loadPageCheckRich name extscript extcss isEntry =
     component_define_head @ name @ component_define_args @
     (if extscript then component_script_block else []) @
     component_template_block @
     (if extcss then component_style_block else []) @
     component_define_tail @
     (if isEntry then component_bootstrap_head @ name @ bootstrap_tail else [])"

definition loadPageCheckLite :: "bool \<Rightarrow> bool \<Rightarrow> string" where
  "loadPageCheckLite extscript extcss =
     (if extscript then lite_page_options else lite_page_no_script) @
     (if extcss then lite_style_sheet else []) @
     lite_page_tail"

definition loadPage :: "host \<Rightarrow> default_loaders \<Rightarrow> loader_context \<Rightarrow> string \<Rightarrow> bool \<Rightarrow> string \<Rightarrow> elval \<Rightarrow> state \<Rightarrow> state \<times> string" where
  "loadPage h dl ctx name isEntry source parentPath st =
     (let rp = ctx_resourcePath ctx in
      if js_includes (path_extname h rp) ''.hml'' then
        (let filename = replace_str rp (path_extname h rp) [];
             frag = parse_fragment h source;
             (st1, elementOutput) = loadPageCheckElementLength h dl ctx frag rp parentPath st;
             output = elementOutput @ ''var $app_template$ = '' @
                      getRequireString h
                        (getLoaderString h dl ''template'' (script_config rp False)) rp;
             (extcss, cssOutput) = loadPageFindCss h dl filename;
             output = output @ cssOutput;
             (st2, extscript, scriptOutput) = loadPageFindJs h dl filename st1;
             output = output @ scriptOutput;
             output = output @
               (if device_level h = Some (level_RICH h)
                then loadPageCheckRich name extscript extcss isEntry
                else loadPageCheckLite extscript extcss)
         in (st2, output))
      else (st, []))"

definition loader :: "host \<Rightarrow> default_loaders \<Rightarrow> loader_context \<Rightarrow> string \<Rightarrow> state \<Rightarrow> state \<times> string" where
  \<comment> \<open>the loader of a source unit: the state after it and the generated code\<close>
  "loader h dl ctx source st =
     (let isEntry = ctx_entry ctx;
          name = unit_name h ctx;
          (els, parentPath) = register_unit ctx name (st_elements st);
          st1 = st\<lparr>st_elements := els\<rparr>
      in if is_reserved_tag h name \<and> ability_type h = Some ''page'' then
           (warn h ctx (''ERROR: The file name cannot contain reserved tag name: '' @ name) st1, [])
         else
           (let appOutput = loadApp h dl ctx name isEntry source;
                (st2, pageOutput) = loadPage h dl ctx name isEntry source parentPath st1
            in (st2, appOutput @ pageOutput)))"

section \<open>json.js: the rewriting passes\<close>

definition is_space :: "char \<Rightarrow> bool" where
  \<comment> \<open>\<^verbatim>\<open>\s\<close> on ASCII: tab, line feed, vertical tab, form feed, carriage return, space\<close>
  "is_space c = (of_char c \<in> set [9, 10, 11, 12, 13, 32 :: nat])"

definition is_line_end :: "char \<Rightarrow> bool" where
  \<comment> \<open>the characters \<^verbatim>\<open>.\<close> does not match\<close>
  "is_line_end c = (c = CHR 0x0A \<or> c = CHR 0x0D)"

definition is_word :: "char \<Rightarrow> bool" where
  \<comment> \<open>\<^verbatim>\<open>\w\<close>\<close>
  "is_word c =
     (let n = (of_char c :: nat)
      in (48 \<le> n \<and> n \<le> 57) \<or> (65 \<le> n \<and> n \<le> 90) \<or> (97 \<le> n \<and> n \<le> 122) \<or> n = 95)"

definition rest_of_line :: "string \<Rightarrow> string" where
  \<comment> \<open>what a greedy \<^verbatim>\<open>.*\<close> takes\<close>
  "rest_of_line s = takeWhile (\<lambda>c. \<not> is_line_end c) s"

fun index_of :: "string \<Rightarrow> string \<Rightarrow> nat option" where
  \<comment> \<open>\<^verbatim>\<open>s.indexOf(p)\<close>, \<open>None\<close> for -1\<close>
  "index_of [] p = (if p = [] then Some 0 else None)"
| "index_of (c # cs) p =
     (if startsWith (c # cs) p then Some 0 else map_option Suc (index_of cs p))"

fun last_index :: "char \<Rightarrow> string \<Rightarrow> nat option" where
  \<comment> \<open>the last position of a character\<close>
  "last_index q [] = None"
| "last_index q (c # cs) =
     (case last_index q cs of
        Some j \<Rightarrow> Some (Suc j)
      | None \<Rightarrow> (if c = q then Some 0 else None))"

function replace_matches :: "(char option \<Rightarrow> string \<Rightarrow> nat option) \<Rightarrow> (string \<Rightarrow> string) \<Rightarrow> char option \<Rightarrow> string \<Rightarrow> string" where
  \<comment> \<open>\<^verbatim>\<open>s.replace(re, f)\<close> for a global regular expression that matches no empty text.
      The matcher gives the length of the match that starts at the head of the rest of
      the text, knowing the character before it; the scan goes on after the match.\<close>
  "replace_matches m f prev [] = []"
| "replace_matches m f prev (c # cs) =
     (case m prev (c # cs) of
        None \<Rightarrow> c # replace_matches m f (Some c) cs
      | Some 0 \<Rightarrow> c # replace_matches m f (Some c) cs
      | Some (Suc n) \<Rightarrow>
          f (c # take n cs) @ replace_matches m f (Some (last (c # take n cs))) (drop n cs))"
  by pat_completeness auto
termination
  by (relation "measure (\<lambda>(m, f, prev, s). length s)") auto

definition match_block_comment :: "char option \<Rightarrow> string \<Rightarrow> nat option" where
  \<comment> \<open>\<^verbatim>\<open>/\/\*((\n|\r|.)*?)\*\//mg\<close>\<close>
  "match_block_comment prev s =
     (if startsWith s ''/*'' then map_option (\<lambda>k. k + 4) (index_of (drop 2 s) ''*/'') else None)"

definition match_line_comment :: "char option \<Rightarrow> string \<Rightarrow> nat option" where
  \<comment> \<open>\<^verbatim>\<open>/(\s|\;|^|\{|\})\/\/.*$/mg\<close>\<close>
  "match_line_comment prev s =
     (case s of
        [] \<Rightarrow> None
      | c # cs \<Rightarrow>
          (if (is_space c \<or> c = CHR '';'' \<or> c = CHR ''{'' \<or> c = CHR ''}'') \<and> startsWith cs ''//''
           then Some (3 + length (rest_of_line (drop 2 cs)))
           else if (case prev of None \<Rightarrow> True | Some b \<Rightarrow> is_line_end b) \<and> startsWith s ''//''
           then Some (2 + length (rest_of_line (drop 2 s)))
           else None))"

definition keep_group1 :: "string \<Rightarrow> string" where
  \<comment> \<open>the replacement \<^verbatim>\<open>"$1"\<close> of a line comment: the character before \<^verbatim>\<open>//\<close>, if any\<close>
  "keep_group1 item = (if startsWith item ''//'' then [] else take 1 item)"

definition match_event_string :: "char option \<Rightarrow> string \<Rightarrow> nat option" where
  \<comment> \<open>\<^verbatim>\<open>REG_EVENT_STRING\<close>: a quote, white space, \<^verbatim>\<open>$event.\<close>, and the longest run on
      the line that has at least one character and ends before the same quote\<close>
  "match_event_string prev s =
     (case s of
        [] \<Rightarrow> None
      | q # rest \<Rightarrow>
          (if q = CHR 0x22 \<or> q = CHR 0x27 then
             (let ws = takeWhile is_space rest; r1 = dropWhile is_space rest
              in if startsWith r1 ''$event.'' then
                   (case last_index q (rest_of_line (drop 7 r1)) of
                      None \<Rightarrow> None
                    | Some j \<Rightarrow> (if 1 \<le> j then Some (1 + length ws + 7 + j + 1) else None))
                 else None)
           else None))"

definition match_event :: "char option \<Rightarrow> string \<Rightarrow> nat option" where
  \<comment> \<open>\<^verbatim>\<open>REG_EVENT\<close>\<close>
  "match_event prev s =
     (if startsWith s ''$event.'' \<and> takeWhile is_word (drop 7 s) \<noteq> []
      then Some (7 + length (takeWhile is_word (drop 7 s))) else None)"

definition match_this :: "char option \<Rightarrow> string \<Rightarrow> nat option" where
  \<comment> \<open>\<^verbatim>\<open>REG_THIS\<close>\<close>
  "match_this prev s =
     (if startsWith s ''this.'' then Some (5 + length (rest_of_line (drop 5 s))) else None)"

definition match_this_dot :: "char option \<Rightarrow> string \<Rightarrow> nat option" where
  \<comment> \<open>\<^verbatim>\<open>/this\./g\<close>\<close>
  "match_this_dot prev s = (if startsWith s ''this.'' then Some 5 else None)"

definition strip_this :: "string \<Rightarrow> string" where
  \<comment> \<open>\<^verbatim>\<open>.replace(/this\./g, '')\<close>\<close>
  "strip_this s = replace_matches match_this_dot (\<lambda>item. []) None s"

definition slice_inner :: "string \<Rightarrow> string" where
  \<comment> \<open>\<^verbatim>\<open>item.slice(1, -1)\<close>\<close>
  "slice_inner item = butlast (drop 1 item)"

definition bind_this :: "(string \<Rightarrow> string) \<Rightarrow> string \<Rightarrow> string" where
  \<comment> \<open>the callback of the \<^verbatim>\<open>REG_THIS\<close> pass; its parameter is \<^verbatim>\<open>transCardArray\<close>\<close>
  "bind_this transCardArray item =
     (if last item \<noteq> CHR 0x22 \<and> last item \<noteq> CHR 0x27 \<and>
         drop (length item - 2) item \<noteq> [CHR 0x22, CHR '',''] \<and>
         drop (length item - 2) item \<noteq> [CHR 0x27, CHR '','']
      then
        (if last item = CHR '','' then
           strip_this ([CHR 0x22] @ ''{{'' @ transCardArray (butlast item) @ ''}}'' @ [CHR 0x22] @ '','')
         else
           strip_this ([CHR 0x22] @ ''{{'' @ transCardArray item @ ''}}'' @ [CHR 0x22]))
      else item)"

definition rewrite_card :: "(string \<Rightarrow> string) \<Rightarrow> (string \<Rightarrow> string) \<Rightarrow> string \<Rightarrow> string" where
  \<comment> \<open>the rewriting of a \<^verbatim>\<open>.json\<close> or \<^verbatim>\<open>.js\<close> source in \<^verbatim>\<open>parseCard\<close>; the parameters are
      \<^verbatim>\<open>ResourceReferenceParsing\<close> and \<^verbatim>\<open>transCardArray\<close>\<close>
  "rewrite_card resourceReferenceParsing transCardArray source =
     (let source = resourceReferenceParsing source;
          source = replace_matches match_event_string slice_inner None source;
          source = replace_matches match_event
                     (\<lambda>item. [CHR 0x22] @ item @ [CHR 0x22]) None source;
          source = replace_matches match_this (bind_this transCardArray) None source
      in source)"

subsection \<open>An occurrence in a text\<close>

text \<open>
  What is around an occurrence of a pattern in a text: the last character before it that
  is not white space, and whether the text after it begins a new line or goes on with a
  word character.
\<close>

definition last_visible :: "string \<Rightarrow> char option" where
  \<comment> \<open>the last character that is not white space\<close>
  "last_visible s = (case dropWhile is_space (rev s) of [] \<Rightarrow> None | c # cs \<Rightarrow> Some c)"

definition after_quote :: "string \<Rightarrow> bool" where
  \<comment> \<open>the text ends with a quote and, possibly, white space\<close>
  "after_quote s = (last_visible s = Some (CHR 0x22) \<or> last_visible s = Some (CHR 0x27))"

definition ends_line :: "string \<Rightarrow> bool" where
  \<comment> \<open>nothing is left on the line: the text is empty or begins with a line terminator\<close>
  "ends_line s = (case s of [] \<Rightarrow> True | c # cs \<Rightarrow> is_line_end c)"

definition ends_word :: "string \<Rightarrow> bool" where
  \<comment> \<open>the text does not go on with a word character\<close>
  "ends_word s = (case s of [] \<Rightarrow> True | c # cs \<Rightarrow> \<not> is_word c)"

definition untouched :: "string \<Rightarrow> bool" where
  \<comment> \<open>a text in which no pass finds the start of a match: no \<open>$\<close> and no \<open>this.\<close>\<close>
  "untouched s = (CHR ''$'' \<notin> set s \<and> \<not> js_includes s ''this.'')"

section \<open>json.js: values\<close>

text \<open>
  The values \<^verbatim>\<open>JSON.parse\<close> gives, and \<^verbatim>\<open>undefined\<close> for a missing property. Numbers
  are integers.
\<close>

datatype jsval =
    JUndefined | JNull | JBool bool | JNum int | JStr string
  | JArr "jsval list" | JObj "(string \<times> jsval) list"

text \<open>
  What the code of json.js can throw: reading a property of \<^verbatim>\<open>null\<close> or \<^verbatim>\<open>undefined\<close>,
  calling a property that is not a function, converting an object without a usable
  \<^verbatim>\<open>toString\<close> to a property key, and whatever the host's evaluation and parsing throw.
\<close>

datatype js_error = NullRead string | NotCallable string | NotPrimitive | Thrown string

definition truthy_js :: "jsval \<Rightarrow> bool" where
  "truthy_js v =
     (case v of JUndefined \<Rightarrow> False | JNull \<Rightarrow> False | JBool b \<Rightarrow> b | JNum n \<Rightarrow> n \<noteq> 0
        | JStr s \<Rightarrow> s \<noteq> [] | JArr xs \<Rightarrow> True | JObj kvs \<Rightarrow> True)"

definition typeof :: "jsval \<Rightarrow> string" where
  "typeof v =
     (case v of JUndefined \<Rightarrow> ''undefined'' | JNull \<Rightarrow> ''object'' | JBool b \<Rightarrow> ''boolean''
        | JNum n \<Rightarrow> ''number'' | JStr s \<Rightarrow> ''string'' | JArr xs \<Rightarrow> ''object''
        | JObj kvs \<Rightarrow> ''object'')"

definition is_object :: "jsval \<Rightarrow> bool" where
  \<comment> \<open>\<^verbatim>\<open>Object.prototype.toString.call(v) === '[object Object]'\<close>\<close>
  "is_object v = (case v of JObj kvs \<Rightarrow> True | _ \<Rightarrow> False)"

definition own :: "(string \<times> jsval) list \<Rightarrow> string \<Rightarrow> jsval" where
  \<comment> \<open>an own property, \<^verbatim>\<open>undefined\<close> when there is none\<close>
  "own kvs k = (case map_of kvs k of None \<Rightarrow> JUndefined | Some v \<Rightarrow> v)"

definition string_of_int :: "int \<Rightarrow> string" where
  "string_of_int n = (if n < 0 then ''-'' @ string_of_nat (nat (- n)) else string_of_nat (nat n))"

fun to_text :: "jsval \<Rightarrow> js_error + string"
  and join_texts :: "jsval list \<Rightarrow> js_error + string" where
  \<comment> \<open>a value as a property key, and \<^verbatim>\<open>Array.prototype.join\<close> with a comma\<close>
  "to_text JUndefined = Inr ''undefined''"
| "to_text JNull = Inr ''null''"
| "to_text (JBool b) = Inr (if b then ''true'' else ''false'')"
| "to_text (JNum n) = Inr (string_of_int n)"
| "to_text (JStr s) = Inr s"
| "to_text (JArr xs) = join_texts xs"
| "to_text (JObj kvs) =
     (if has_key kvs ''toString'' then Inl NotPrimitive else Inr ''[object Object]'')"
| "join_texts [] = Inr []"
| "join_texts (x # xs) =
     (case (if x = JUndefined \<or> x = JNull then Inr [] else to_text x) of
        Inl e \<Rightarrow> Inl e
      | Inr a \<Rightarrow>
          (if xs = [] then Inr a
           else (case join_texts xs of Inl e \<Rightarrow> Inl e | Inr b \<Rightarrow> Inr (a @ '','' @ b))))"

definition get_member :: "jsval \<Rightarrow> string \<Rightarrow> js_error + jsval" where
  \<comment> \<open>\<^verbatim>\<open>v.name\<close> for a name that no prototype defines\<close>
  "get_member v name =
     (case v of
        JUndefined \<Rightarrow> Inl (NullRead name)
      | JNull \<Rightarrow> Inl (NullRead name)
      | JObj kvs \<Rightarrow> Inr (own kvs name)
      | _ \<Rightarrow> Inr JUndefined)"

definition has_own_default :: "jsval \<Rightarrow> js_error + bool" where
  \<comment> \<open>\<^verbatim>\<open>v.hasOwnProperty('default')\<close>: an own property \<^verbatim>\<open>hasOwnProperty\<close> of a parsed
      object is never a function\<close>
  "has_own_default v =
     (case v of
        JUndefined \<Rightarrow> Inl (NullRead ''hasOwnProperty'')
      | JNull \<Rightarrow> Inl (NullRead ''hasOwnProperty'')
      | JObj kvs \<Rightarrow>
          (if has_key kvs ''hasOwnProperty'' then Inl (NotCallable ''hasOwnProperty'')
           else Inr (has_key kvs ''default''))
      | _ \<Rightarrow> Inr False)"

section \<open>json.js: the host and the state\<close>

text \<open>
  What json.js reads from its surroundings. \<^verbatim>\<open>ResourceReferenceParsing\<close> and
  \<^verbatim>\<open>transCardArray\<close> are modules of this repository that are not among the source files
  at hand; \<^verbatim>\<open>eval\<close>, \<^verbatim>\<open>JSON.stringify\<close> and \<^verbatim>\<open>JSON.parse\<close> are the host's.
\<close>

record card_host =
  card_device_level :: "string option"     \<comment> \<open>\<^verbatim>\<open>process.env.DEVICE_LEVEL\<close>\<close>
  card_log_level :: "int option"           \<comment> \<open>\<^verbatim>\<open>process.env.logLevel\<close>\<close>
  card_extname :: "string \<Rightarrow> string"
  card_dirname :: "string \<Rightarrow> string"
  card_resolve :: "string \<Rightarrow> string"
  card_resolve2 :: "string \<Rightarrow> string \<Rightarrow> string"
  card_output_path :: string               \<comment> \<open>\<^verbatim>\<open>_compiler.options.output.path\<close>\<close>
  card_entries :: "(string \<times> string) list"  \<comment> \<open>each entry key with its \<^verbatim>\<open>import[0]\<close>\<close>
  resource_reference_parsing :: "string \<Rightarrow> string"
  trans_card_array :: "string \<Rightarrow> string"
  eval_stringify :: "string \<Rightarrow> js_error + string option"
     \<comment> \<open>\<^verbatim>\<open>JSON.stringify(eval(text))\<close>: what it throws, or the text (\<open>None\<close>: \<^verbatim>\<open>undefined\<close>)\<close>
  json_parse :: "string option \<Rightarrow> js_error + jsval"
  error_text :: "js_error \<Rightarrow> js_error + string"
     \<comment> \<open>a caught value inside a template string: its text, or what the conversion
         throws (the value is a Symbol, or an object whose \<^verbatim>\<open>toString\<close> throws or is
         missing)\<close>

record card_context =
  cc_resourcePath :: string
  cc_resourceQuery :: string

datatype carg = ArgStr string | ArgVal jsval

record card_state =
  cs_emitted :: "emitted list"      \<comment> \<open>the calls of \<^verbatim>\<open>emitWarning\<close> and \<^verbatim>\<open>emitError\<close>\<close>
  cs_calls :: "carg list list"      \<comment> \<open>the calls of \<^verbatim>\<open>cardJsonPlugin.compileJson\<close>, each by
                                       its arguments after the compiler\<close>

definition card_warn :: "card_host \<Rightarrow> card_context \<Rightarrow> string \<Rightarrow> card_state \<Rightarrow> card_state" where
  \<comment> \<open>\<^verbatim>\<open>logWarn(_this, [{ reason }])\<close>\<close>
  "card_warn h cc r st =
     st\<lparr>cs_emitted := cs_emitted st @
          snd (logWarn (card_log_level h) (cc_resourcePath cc)
                 [\<lparr>reason = r, line = None, column = None\<rparr>])\<rparr>"

definition compileJson :: "carg list \<Rightarrow> card_state \<Rightarrow> card_state" where
  "compileJson args st = st\<lparr>cs_calls := cs_calls st @ [args]\<rparr>"

section \<open>json.js: the sections\<close>

definition default_entry :: jsval where
  \<comment> \<open>\<^verbatim>\<open>{ 'default': '' }\<close>\<close>
  "default_entry = JObj [(''default'', JStr [])]"

fun props_array_loop :: "card_host \<Rightarrow> card_context \<Rightarrow> jsval list \<Rightarrow> (string \<times> jsval) list \<Rightarrow> card_state \<Rightarrow> card_state \<times> (js_error + jsval)" where
  \<comment> \<open>\<^verbatim>\<open>propsValue.forEach\<close> on an array, with \<^verbatim>\<open>propsObject\<close> so far\<close>
  "props_array_loop h cc [] propsObject st = (st, Inr (JObj propsObject))"
| "props_array_loop h cc (item # items) propsObject st =
     (let st1 =
            (if typeof item \<noteq> ''string'' then
               card_warn h cc
                 (''WARNING: The props value type should be '' @ [CHR 0x27] @ ''string'' @
                  [CHR 0x27] @ '', not '' @ [CHR 0x27] @ typeof item @ [CHR 0x27] @
                  '' in props array in custom elements.'') st
             else st)
      in case to_text item of
           Inl e \<Rightarrow> (st1, Inl e)
         | Inr k \<Rightarrow>
             props_array_loop h cc items
               (if k = ''__proto__'' then propsObject else js_put propsObject k default_entry) st1)"

fun props_object_loop :: "card_host \<Rightarrow> card_context \<Rightarrow> string list \<Rightarrow> (string \<times> jsval) list \<Rightarrow> card_state \<Rightarrow> card_state \<times> (js_error + jsval)" where
  \<comment> \<open>\<^verbatim>\<open>Object.keys(propsValue).forEach\<close>, with \<^verbatim>\<open>propsValue\<close> as it is so far\<close>
  "props_object_loop h cc [] propsValue st = (st, Inr (JObj propsValue))"
| "props_object_loop h cc (item # items) propsValue st =
     (let st1 =
            (if \<not> is_object (own propsValue item) then
               card_warn h cc
                 ''WARNING: The props default value type can only be Object in custom elements.'' st
             else st)
      in case has_own_default (own propsValue item) of
           Inl e \<Rightarrow> (st1, Inl e)
         | Inr has \<Rightarrow>
             props_object_loop h cc items
               (if \<not> has then js_put propsValue item default_entry else propsValue) st1)"

definition replacePropsArray :: "card_host \<Rightarrow> card_context \<Rightarrow> jsval \<Rightarrow> card_state \<Rightarrow> card_state \<times> (js_error + jsval)" where
  "replacePropsArray h cc propsValue st =
     (if \<not> truthy_js propsValue then (st, Inr propsValue)
      else (case propsValue of
              JArr items \<Rightarrow> props_array_loop h cc items [] st
            | JObj kvs \<Rightarrow> props_object_loop h cc (map fst kvs) kvs st
            | _ \<Rightarrow>
                (card_warn h cc
                   ''WARNING: The props type can only be Array or Object in custom elements.'' st,
                 Inr propsValue)))"

definition set_method :: "(string \<times> jsval) list \<Rightarrow> string \<Rightarrow> string \<Rightarrow> (string \<times> jsval) list" where
  \<comment> \<open>\<^verbatim>\<open>actionsValue[item].method = m\<close>, where the entry is an object\<close>
  "set_method actionsValue item m =
     map (\<lambda>p. if fst p = item then
                 (case snd p of JObj es \<Rightarrow> (item, JObj (js_put es ''method'' (JStr m))) | _ \<Rightarrow> p)
               else p) actionsValue"

fun actions_loop :: "card_host \<Rightarrow> card_context \<Rightarrow> string list \<Rightarrow> (string \<times> jsval) list \<Rightarrow> card_state \<Rightarrow> card_state \<times> (js_error + jsval)" where
  \<comment> \<open>\<^verbatim>\<open>Object.keys(actionsValue).forEach\<close>, with \<^verbatim>\<open>actionsValue\<close> as it is so far\<close>
  "actions_loop h cc [] actionsValue st = (st, Inr (JObj actionsValue))"
| "actions_loop h cc (item # items) actionsValue st =
     (case get_member (own actionsValue item) ''method'' of
        Inl e \<Rightarrow> (st, Inl e)
      | Inr m \<Rightarrow>
          (if truthy_js m then
             (case m of
                JStr s \<Rightarrow>
                  (if toLowerCase s \<noteq> s then
                     actions_loop h cc items (set_method actionsValue item (toLowerCase s))
                       (card_warn h cc
                          (''WARNING: The key method '' @ [CHR 0x27] @ s @ [CHR 0x27] @
                           '' in the actions don'' @ [CHR 0x27] @
                           ''t support uppercase letters.'') st)
                   else actions_loop h cc items actionsValue st)
              | _ \<Rightarrow>
                  actions_loop h cc items actionsValue
                    (card_warn h cc
                       (''WARNING: The key method type in the actions should be '' @
                        [CHR 0x27] @ ''string'' @ [CHR 0x27] @ '', not '' @ [CHR 0x27] @
                        typeof m @ [CHR 0x27] @ ''.'') st))
           else actions_loop h cc items actionsValue st))"

definition processActions :: "card_host \<Rightarrow> card_context \<Rightarrow> jsval \<Rightarrow> card_state \<Rightarrow> card_state \<times> (js_error + jsval)" where
  "processActions h cc actionsValue st =
     (case actionsValue of
        JObj kvs \<Rightarrow> actions_loop h cc (map fst kvs) kvs st
      | _ \<Rightarrow>
          ((if truthy_js actionsValue
            then card_warn h cc ''WARNING: The actions value type can only be Object.'' st
            else st),
           Inr actionsValue))"

definition validateData :: "card_host \<Rightarrow> card_context \<Rightarrow> jsval \<Rightarrow> card_state \<Rightarrow> card_state \<times> (js_error + jsval)" where
  "validateData h cc dataValue st =
     ((if truthy_js dataValue \<and> \<not> is_object dataValue
       then card_warn h cc ''WARNING: The data value type can only be Object.'' st
       else st),
      Inr dataValue)"

section \<open>json.js: parseCard and the loader\<close>

definition trim :: "string \<Rightarrow> string" where
  "trim s = rev (dropWhile is_space (rev (dropWhile is_space s)))"

definition strip_source :: "card_host \<Rightarrow> card_context \<Rightarrow> string \<Rightarrow> string" where
  \<comment> \<open>\<^verbatim>\<open>source\<close> when \<^verbatim>\<open>parseCard\<close> hands it to \<^verbatim>\<open>eval\<close>: comments and a leading
      \<^verbatim>\<open>export default\<close> removed, a \<^verbatim>\<open>.json\<close> or \<^verbatim>\<open>.js\<close> text rewritten\<close>
  "strip_source h cc source =
     (let source = replace_matches match_block_comment (\<lambda>item. []) None source;
          source = replace_matches match_line_comment keep_group1 None source;
          source = (if index_of (trim source) ''export default'' = Some 0
                    then replace_str source ''export default'' [] else source);
          extName = card_extname h (cc_resourcePath cc)
      in if extName = ''.json'' \<or> extName = ''.js''
         then rewrite_card (resource_reference_parsing h) (trans_card_array h) source
         else source)"

fun entries_loop :: "card_host \<Rightarrow> string \<Rightarrow> string \<Rightarrow> (string \<times> string) list \<Rightarrow> string \<times> string option \<Rightarrow> string \<times> string option" where
  \<comment> \<open>\<^verbatim>\<open>Object.keys(entrys).forEach\<close> in \<^verbatim>\<open>mkJsonFiles\<close>, on \<^verbatim>\<open>indexJson\<close> and \<^verbatim>\<open>element\<close>\<close>
  "entries_loop h resourcePath query0 [] acc = acc"
| "entries_loop h resourcePath query0 ((key, import0) # rest) (indexJson, element) =
     entries_loop h resourcePath query0 rest
       (if card_dirname h (card_resolve h import0) = card_dirname h resourcePath
        then (key @ ''.json'', element)
        else (key @ ''.json'', Some (drop 1 query0)))"

definition mkJsonFiles :: "card_host \<Rightarrow> card_context \<Rightarrow> string \<times> string option" where
  \<comment> \<open>\<^verbatim>\<open>indexJson\<close> and \<^verbatim>\<open>element\<close>\<close>
  "mkJsonFiles h cc =
     (let query0 = takeWhile (\<lambda>c. c \<noteq> CHR ''#'') (cc_resourceQuery cc);
          (indexJson, element) =
            entries_loop h (cc_resourcePath cc) query0 (card_entries h) ([], None)
      in (card_resolve2 h (card_output_path h) indexJson, element))"

definition bind_card :: "card_state \<times> (js_error + 'a) \<Rightarrow> ('a \<Rightarrow> card_state \<Rightarrow> card_state \<times> (js_error + 'b)) \<Rightarrow> card_state \<times> (js_error + 'b)" where
  \<comment> \<open>one statement after another: an exception ends the sequence, what was emitted and
      called before it stays\<close>
  "bind_card m f = (case m of (st, Inl e) \<Rightarrow> (st, Inl e) | (st, Inr v) \<Rightarrow> f v st)"

definition parsed_member :: "card_host \<Rightarrow> string option \<Rightarrow> string \<Rightarrow> card_state \<Rightarrow> card_state \<times> (js_error + jsval)" where
  \<comment> \<open>\<^verbatim>\<open>JSON.parse(source).name\<close>\<close>
  "parsed_member h text name st =
     (case json_parse h text of
        Inl e \<Rightarrow> (st, Inl e)
      | Inr parsed \<Rightarrow> (st, get_member parsed name))"

definition section_call :: "card_host \<Rightarrow> string option \<Rightarrow> string \<Rightarrow> (jsval \<Rightarrow> card_state \<Rightarrow> card_state \<times> (js_error + jsval)) \<Rightarrow> (jsval \<Rightarrow> carg list) \<Rightarrow> card_state \<Rightarrow> card_state \<times> (js_error + unit)" where
  \<comment> \<open>one statement \<^verbatim>\<open>compileJson(..., process(JSON.parse(source).name, _this), ...)\<close>\<close>
  "section_call h text name process args st =
     bind_card (parsed_member h text name st) (\<lambda>v st1.
       bind_card (process v st1) (\<lambda>v' st2. (compileJson (args v') st2, Inr ())))"

definition whole_call :: "card_host \<Rightarrow> string option \<Rightarrow> (jsval \<Rightarrow> carg list) \<Rightarrow> card_state \<Rightarrow> card_state \<times> (js_error + unit)" where
  \<comment> \<open>one statement \<^verbatim>\<open>compileJson(..., JSON.parse(source), ...)\<close>\<close>
  "whole_call h text args st =
     (case json_parse h text of
        Inl e \<Rightarrow> (st, Inl e)
      | Inr parsed \<Rightarrow> (compileJson (args parsed) st, Inr ()))"

definition is_style_ext :: "string \<Rightarrow> bool" where
  "is_style_ext extName =
     (extName = ''.css'' \<or> extName = ''.less'' \<or> extName = ''.sass'' \<or> extName = ''.scss'')"

definition compile_sections :: "card_host \<Rightarrow> card_context \<Rightarrow> string option \<Rightarrow> card_state \<Rightarrow> card_state \<times> (js_error + unit)" where
  \<comment> \<open>\<^verbatim>\<open>parseCard\<close> after the evaluation: the calls of \<^verbatim>\<open>compileJson\<close>\<close>
  "compile_sections h cc text st =
     (let extName = card_extname h (cc_resourcePath cc);
          (indexJson, element) = mkJsonFiles h cc;
          st1 = compileJson [ArgStr ''init'', ArgStr indexJson] st
      in if truthy_str element then
           (let el = the element in
            if extName = ''.json'' \<or> extName = ''.js'' then
              bind_card (section_call h text ''actions'' (processActions h cc)
                  (\<lambda>v. [ArgStr el, ArgStr indexJson, ArgVal v, ArgStr el, ArgStr ''actions'']) st1)
                (\<lambda>u st2.
              bind_card (section_call h text ''data'' (validateData h cc)
                  (\<lambda>v. [ArgStr el, ArgStr indexJson, ArgVal v, ArgStr el, ArgStr ''data'']) st2)
                (\<lambda>u st3.
              bind_card (section_call h text ''apiVersion'' (validateData h cc)
                  (\<lambda>v. [ArgStr el, ArgStr indexJson, ArgVal v, ArgStr el, ArgStr ''apiVersion''])
                  st3)
                (\<lambda>u st4.
              section_call h text ''props'' (replacePropsArray h cc)
                  (\<lambda>v. [ArgStr el, ArgStr indexJson, ArgVal v, ArgStr el, ArgStr ''props'']) st4)))
            else if is_style_ext extName then
              whole_call h text
                (\<lambda>v. [ArgStr el, ArgStr indexJson, ArgVal v, ArgStr el, ArgStr ''styles'']) st1
            else if extName = ''.hml'' then
              whole_call h text
                (\<lambda>v. [ArgStr el, ArgStr indexJson, ArgVal v, ArgStr el, ArgStr ''template'']) st1
            else (st1, Inr ()))
         else
           (if extName = ''.json'' \<or> extName = ''.js'' then
              bind_card (section_call h text ''actions'' (processActions h cc)
                  (\<lambda>v. [ArgStr ''actions'', ArgStr indexJson, ArgVal v, ArgStr ''actions'']) st1)
                (\<lambda>u st2.
              bind_card (section_call h text ''data'' (validateData h cc)
                  (\<lambda>v. [ArgStr ''data'', ArgStr indexJson, ArgVal v, ArgStr ''data'']) st2)
                (\<lambda>u st3.
              section_call h text ''apiVersion'' (validateData h cc)
                  (\<lambda>v. [ArgStr ''apiVersion'', ArgStr indexJson, ArgVal v, ArgStr ''apiVersion''])
                  st3))
            else if is_style_ext extName then
              whole_call h text
                (\<lambda>v. [ArgStr ''styles'', ArgStr indexJson, ArgVal v, ArgStr ''styles'']) st1
            else if extName = ''.hml'' then
              whole_call h text
                (\<lambda>v. [ArgStr ''template'', ArgStr indexJson, ArgVal v, ArgStr ''template'']) st1
            else (st1, Inr ())))"

definition parseCard :: "card_host \<Rightarrow> card_context \<Rightarrow> string \<Rightarrow> card_state \<Rightarrow> card_state \<times> (js_error + string option)" where
  \<comment> \<open>the state after it, and what it throws or returns\<close>
  "parseCard h cc source st =
     (case eval_stringify h (''('' @ strip_source h cc source @ '')'') of
        Inl e \<Rightarrow> (st, Inl e)
      | Inr text \<Rightarrow>
          bind_card (compile_sections h cc text st) (\<lambda>u st1. (st1, Inr text)))"

definition json_loader :: "card_host \<Rightarrow> card_context \<Rightarrow> string \<Rightarrow> card_state \<Rightarrow> card_state \<times> (js_error + string)" where
  \<comment> \<open>\<^verbatim>\<open>module.exports\<close> of json.js: the state after it, and the module text it returns or
      what it throws. In the \<^verbatim>\<open>catch\<close> block the reason is built, with the caught value
      converted to text, before \<^verbatim>\<open>logWarn\<close> is called. The call of \<^verbatim>\<open>this.cacheable\<close>
      is the host's and changes nothing here.\<close>
  "json_loader h cc source st =
     (if card_device_level h = Some ''card'' then
        (case parseCard h cc source st of
           (st1, Inl e) \<Rightarrow>
             (case error_text h e of
                Inl e' \<Rightarrow> (st1, Inl e')
              | Inr t \<Rightarrow>
                  (card_warn h cc
                     (''ERROR: Failed to parse the file : '' @ cc_resourcePath cc @ [CHR 0x0A] @ t)
                     st1,
                   Inr ''{}''))
         | (st1, Inr text) \<Rightarrow> (st1, Inr ''{}''))
      else (st, Inr (''module.exports = '' @ source)))"

section \<open>util.js: consumeMap\<close>

text \<open>
  The consumed source map is the function \<^verbatim>\<open>originalPositionFor\<close> of the host's
  \<^verbatim>\<open>SourceMapConsumer\<close>, from a generated line and column to a position whose fields
  are \<^verbatim>\<open>null\<close> when the map has none.
\<close>

record position =
  pos_source :: "string option"
  pos_line :: "nat option"
  pos_column :: "nat option"

record consumed =
  cm_source :: "string option"
  cm_original :: "(nat option \<times> nat option) list"
  cm_generated :: "(nat \<times> nat) list"
  cm_mapping :: "(string \<times> nat option \<times> nat option) list"
  cm_sourcesContent :: "string list"

fun split_from :: "string \<Rightarrow> string \<Rightarrow> string list" where
  \<comment> \<open>\<^verbatim>\<open>split(/\r?\n/g)\<close> on the rest of the text, with the line read so far\<close>
  "split_from cur [] = [cur]"
| "split_from cur (c # cs) =
     (if c = CHR 0x0A then cur # split_from [] cs
      else if c = CHR 0x0D \<and> cs \<noteq> [] \<and> hd cs = CHR 0x0A then cur # split_from [] (tl cs)
      else split_from (cur @ [c]) cs)"

definition splitSourceLine :: "string \<Rightarrow> string list" where
  "splitSourceLine source = split_from [] source"

fun consume_lines :: "(nat \<Rightarrow> nat \<Rightarrow> position) \<Rightarrow> nat \<Rightarrow> string list \<Rightarrow> consumed \<Rightarrow> consumed" where
  \<comment> \<open>the callback of \<^verbatim>\<open>forEach\<close> on the lines from index \<open>i\<close> on\<close>
  "consume_lines smc i [] acc = acc"
| "consume_lines smc i (input # rest) acc =
     (let column = 0;
          line = i + 1;
          pos = smc line column
      in consume_lines smc (i + 1) rest
           (if truthy_str (pos_source pos) then
              acc\<lparr>cm_source := pos_source pos,
                  cm_original := cm_original acc @ [(pos_line pos, pos_column pos)],
                  cm_generated := cm_generated acc @ [(line, column)],
                  cm_mapping :=
                    js_put (cm_mapping acc)
                      (''line-'' @ string_of_nat line @ ''-column-'' @ string_of_nat column)
                      (pos_line pos, pos_column pos)\<rparr>
            else acc))"

definition consumeMap :: "(nat \<Rightarrow> nat \<Rightarrow> position) \<Rightarrow> string list \<Rightarrow> string \<Rightarrow> consumed" where
  \<comment> \<open>the parameters: \<^verbatim>\<open>smc.originalPositionFor\<close>, \<^verbatim>\<open>smc.sourcesContent\<close>, \<^verbatim>\<open>target\<close>\<close>
  "consumeMap smc sourcesContent target =
     consume_lines smc 0 (splitSourceLine target)
       \<lparr>cm_source = None, cm_original = [], cm_generated = [], cm_mapping = [],
        cm_sourcesContent = sourcesContent\<rparr>"

section \<open>Sample inputs\<close>

text \<open>
  A host for concrete runs: POSIX paths without \<open>..\<close> segments, every request quoted,
  the rich device level, ability type \<open>page\<close>, log level 1. Its parameters are the files
  that exist and the custom elements the parser finds in a source text.
\<close>

definition sample_basename :: "string \<Rightarrow> string" where
  "sample_basename p = rev (takeWhile (\<lambda>c. c \<noteq> CHR ''/'') (rev p))"

definition sample_dirname :: "string \<Rightarrow> string" where
  "sample_dirname p = rev (drop 1 (dropWhile (\<lambda>c. c \<noteq> CHR ''/'') (rev p)))"

definition sample_extname :: "string \<Rightarrow> string" where
  "sample_extname p =
     (let b = sample_basename p in
      if CHR ''.'' \<in> set (drop 1 b) then CHR ''.'' # rev (takeWhile (\<lambda>c. c \<noteq> CHR ''.'') (rev b))
      else [])"

definition sample_parse_name :: "string \<Rightarrow> string" where
  "sample_parse_name p =
     (let b = sample_basename p in take (length b - length (sample_extname p)) b)"

definition sample_join :: "string \<Rightarrow> string \<Rightarrow> string" where
  "sample_join a b = (if startsWith b ''./'' then a @ ''/'' @ drop 2 b else a @ ''/'' @ b)"

definition sample_host :: "(string \<Rightarrow> bool) \<Rightarrow> (string \<Rightarrow> element list) \<Rightarrow> host" where
  "sample_host files frag =
     \<lparr>device_level = Some ''rich'', ability_type = Some ''page'',
      ace_manifest_path = Some ''/proj/manifest.json'', project_path = ''/proj'',
      log_level = Some 1, level_RICH = ''rich'', level_LITE = ''lite'',
      fs_exists = files, path_extname = sample_extname, path_dirname = sample_dirname,
      path_basename = sample_basename, path_parse_name = sample_parse_name,
      path_join = sample_join, path_resolve = (\<lambda>p. p), path_resolve2 = sample_join,
      stringify_request = (\<lambda>r. [CHR 0x22] @ r @ [CHR 0x22]),
      load_babel_module = (\<lambda>m. ''/node_modules/'' @ m),
      babel_config = ''/loader/babel.config.js'',
      is_reserved_tag = (\<lambda>n. n \<in> set [''div'', ''text'', ''list'', ''image'']),
      parse_fragment = frag\<rparr>"

definition sample_loaders :: default_loaders where
  "sample_loaders =
     \<lparr>dl_main = ''/loader/loader.js'', dl_template = ''/loader/template.js'',
      dl_style = ''/loader/style.js'', dl_script = ''/loader/script.js'',
      dl_json = ''/loader/json.js'', dl_babel = ''/node_modules/babel-loader'',
      dl_manifest = ''/loader/manifest-loader.js'',
      dl_resourceReferenceScript = ''/loader/resource-reference-script.js''\<rparr>"

definition empty_state :: state where
  \<comment> \<open>the start of a build: no unit registered, nothing emitted\<close>
  "empty_state = \<lparr>st_elements = (\<lambda>k. None), st_emitted = [], st_console = []\<rparr>"

definition entry_unit :: "string \<Rightarrow> loader_context" where
  \<comment> \<open>the loader context of an entry page\<close>
  "entry_unit p =
     \<lparr>ctx_resourcePath = p, ctx_entry = True, ctx_name = None, ctx_parentPath = None,
      ctx_element = False, ctx_entries = None\<rparr>"

definition included_unit :: "string \<Rightarrow> string \<Rightarrow> string \<Rightarrow> loader_context" where
  \<comment> \<open>the loader context of a page required as
      \<^verbatim>\<open>p?name=n&parentPath=parent\<close> by \<^verbatim>\<open>loadPageCheckElementLength\<close>\<close>
  "included_unit p n parent =
     \<lparr>ctx_resourcePath = p, ctx_entry = False, ctx_name = Some n, ctx_parentPath = Some parent,
      ctx_element = True, ctx_entries = None\<rparr>"

definition sample_markup :: "string \<Rightarrow> element list" where
  \<comment> \<open>the custom elements of four sample pages, by the page's source text\<close>
  "sample_markup src =
     (if src = ''index'' then [\<lparr>el_src = Some ''./b.hml'', el_name = Some ''x''\<rparr>]
      else if src = ''index with parent'' then
        [\<lparr>el_src = Some ''./parent.hml'', el_name = None\<rparr>,
         \<lparr>el_src = Some ''./b.hml'', el_name = Some ''x''\<rparr>]
      else if src = ''b'' then [\<lparr>el_src = Some ''./c.hml'', el_name = Some ''x''\<rparr>]
      else if src = ''home'' then [\<lparr>el_src = Some ''./index.hml'', el_name = Some ''a''\<rparr>]
      else if src = ''broken'' then [\<lparr>el_src = Some ''./missing.hml'', el_name = None\<rparr>]
      else [])"

definition scope_has :: "state \<Rightarrow> string \<Rightarrow> string \<Rightarrow> elval option" where
  \<comment> \<open>what the record under a key holds for a name, \<open>None\<close> when there is no record\<close>
  "scope_has st k n = map_option (\<lambda>r. r n) (st_elements st k)"

definition sample_card_host :: "string option \<Rightarrow> (string \<Rightarrow> js_error + string option) \<Rightarrow> (string option \<Rightarrow> js_error + jsval) \<Rightarrow> card_host" where
  \<comment> \<open>a host of json.js: the device level, the evaluation and the parser are its
      parameters; the two missing modules leave every text as it is\<close>
  "sample_card_host level ev parse =
     \<lparr>card_device_level = level, card_log_level = Some 1, card_extname = sample_extname,
      card_dirname = sample_dirname, card_resolve = (\<lambda>p. p), card_resolve2 = sample_join,
      card_output_path = ''/out'',
      card_entries = [(''pages/index/index'', ''/proj/pages/index/index.hml'')],
      resource_reference_parsing = (\<lambda>s. s), trans_card_array = (\<lambda>s. s),
      eval_stringify = ev, json_parse = parse,
      error_text = (\<lambda>e. case e of Thrown t \<Rightarrow> Inr t | _ \<Rightarrow> Inr ''TypeError'')\<rparr>"

definition symbol_text :: "js_error \<Rightarrow> js_error + string" where
  \<comment> \<open>the conversion to text where the value thrown as \<open>Symbol(boom)\<close> is a Symbol\<close>
  "symbol_text e =
     (case e of
        Thrown t \<Rightarrow>
          (if t = ''Symbol(boom)''
           then Inl (Thrown ''TypeError: Cannot convert a Symbol value to a string'')
           else Inr t)
      | _ \<Rightarrow> Inr ''TypeError'')"

definition sample_card_context :: card_context where
  "sample_card_context =
     \<lparr>cc_resourcePath = ''/proj/pages/index/index.json'', cc_resourceQuery = []\<rparr>"

definition empty_card_state :: card_state where
  "empty_card_state = \<lparr>cs_emitted = [], cs_calls = []\<rparr>"

definition normalized_props :: "(string \<times> jsval) list \<Rightarrow> bool" where
  \<comment> \<open>an object of objects, each with an own \<open>default\<close> and with the inherited
      \<^verbatim>\<open>hasOwnProperty\<close>\<close>
  "normalized_props kvs =
     list_all (\<lambda>p. case snd p of
                      JObj es \<Rightarrow> has_key es ''default'' \<and> \<not> has_key es ''hasOwnProperty''
                    | _ \<Rightarrow> False) kvs"

definition ok_entry :: "jsval \<Rightarrow> bool" where
  \<comment> \<open>an entry of \<^verbatim>\<open>props\<close> that the object pass keeps: it has its own \<open>default\<close>\<close>
  "ok_entry v = (has_own_default v = Inr True)"

definition sample_generated :: string where
  \<comment> \<open>a generated text of six lines\<close>
  "sample_generated =
     ''a'' @ [CHR 0x0A] @ ''b'' @ [CHR 0x0D, CHR 0x0A] @ ''c'' @ [CHR 0x0A] @ ''d'' @
     [CHR 0x0A] @ ''e'' @ [CHR 0x0A] @ ''f''"

definition sample_positions :: "nat \<Rightarrow> nat \<Rightarrow> position" where
  \<comment> \<open>a consumed map that knows the generated lines 2 and 5 only\<close>
  "sample_positions l c =
     (if l = 2 then \<lparr>pos_source = Some ''index.hml'', pos_line = Some 10, pos_column = Some 4\<rparr>
      else if l = 5 then
        \<lparr>pos_source = Some ''index.hml'', pos_line = Some 12, pos_column = Some 0\<rparr>
      else \<lparr>pos_source = None, pos_line = None, pos_column = None\<rparr>)"

section \<open>Properties\<close>

lemma js_join_joined_by: "js_join ps sep = joined_by sep ps"
  by (induction sep ps rule: joined_by.induct) simp_all

lemma foldl_push_query: "foldl push_query acc q = acc @ concat (map render_pair q)"
proof (induction q arbitrary: acc)
  case Nil
  then show ?case by simp
next
  case (Cons kv q)
  obtain k v where kv: "kv = (k, v)" by (cases kv)
  show ?case
  proof (cases v)
    case (QBool b)
    then show ?thesis using Cons kv by (cases b) simp_all
  qed (use Cons kv in \<open>simp_all add: js_join_joined_by\<close>)
qed

lemma stringifyLoader_stage_text: "stringifyLoader st = stage_text st"
proof (cases st)
  case (LoaderName s)
  then show ?thesis by (simp add: stringifyLoader_def stage_text_def)
next
  case (LoaderObj name q)
  show ?thesis
  proof (cases q)
    case None
    then show ?thesis using LoaderObj by (simp add: stringifyLoader_def stage_text_def)
  next
    case (Some kvs)
    show ?thesis
    proof (cases "concat (map render_pair (for_in kvs))")
      case Nil
      then show ?thesis using LoaderObj Some
        by (simp add: stringifyLoader_def stage_text_def foldl_push_query
            del: concat_eq_Nil_conv)
    next
      case (Cons p ps)
      then show ?thesis using LoaderObj Some
        by (simp add: stringifyLoader_def stage_text_def foldl_push_query js_join_joined_by)
    qed
  qed
qed

lemma foldl_js_put_plain:
  "distinct (map fst (acc @ q)) \<Longrightarrow> list_all (\<lambda>kv. array_index (fst kv) = None) q \<Longrightarrow>
   foldl (\<lambda>obj (k, v). js_put obj k v) acc q = acc @ q"
proof (induction q arbitrary: acc)
  case Nil
  then show ?case by simp
next
  case (Cons kv q)
  obtain k v where kv: "kv = (k, v)" by (cases kv)
  have "js_put acc k v = acc @ [(k, v)]"
    using Cons.prems kv by (auto simp: js_put_def has_key_def)
  moreover have "distinct (map fst ((acc @ [(k, v)]) @ q))"
    using Cons.prems(1) kv by simp
  moreover have "list_all (\<lambda>kv. array_index (fst kv) = None) q"
    using Cons.prems(2) by simp
  ultimately show ?case using Cons.IH [of "acc @ [(k, v)]"] kv by simp
qed

lemma for_in_plain:
  "distinct (map fst q) \<Longrightarrow> list_all (\<lambda>kv. array_index (fst kv) = None) q \<Longrightarrow> for_in q = q"
  using foldl_js_put_plain [of "[]" q] by (simp add: for_in_def)

lemma stage_text_plain: "plain_query st \<Longrightarrow> stage_text st = spec_stage_text st"
proof (cases st)
  case (LoaderName s)
  then show ?thesis by (simp add: stage_text_def spec_stage_text_def)
next
  case (LoaderObj name q)
  assume p: "plain_query st"
  show ?thesis
  proof (cases q)
    case None
    then show ?thesis using LoaderObj by (simp add: stage_text_def spec_stage_text_def)
  next
    case (Some kvs)
    have f: "for_in kvs = kvs"
      using p LoaderObj Some by (intro for_in_plain) (simp_all add: plain_query_def)
    have r: "kvs = [] \<or> concat (map render_pair kvs) \<noteq> []"
      using p LoaderObj Some by (simp add: plain_query_def)
    show ?thesis
    proof (cases "concat (map render_pair kvs)")
      case Nil
      then have "kvs = []" using r by blast
      then show ?thesis using LoaderObj Some by (simp add: stage_text_def spec_stage_text_def for_in_def)
    next
      case (Cons p ps)
      then have "kvs \<noteq> []" by auto
      then show ?thesis using LoaderObj Some Cons f
        by (simp add: stage_text_def spec_stage_text_def)
    qed
  qed
qed

text \<open>
  C5, as the code has it. The serialized descriptor is the stage texts joined by \<open>!\<close> in
  stage order. A stage's text is its name, followed, when at least one pair of its query
  renders, by \<open>?\<close> and the rendered pairs joined by \<open>&\<close>, in the order in which
  \<^verbatim>\<open>for ... in\<close> visits the query: the bare key for true, \<open>key[]=v1,v2,...\<close> for a
  list, nothing for a null or absent value, \<open>key=value\<close> for any other value. That
  order is the insertion order when no key is an array index and none is written twice;
  on a chain whose queries are such, and are empty or render a pair, the descriptor is
  the one the specification words.
\<close>

theorem stringifyLoaders_chain_descriptor:
  "stringifyLoaders loaders = chain_descriptor loaders \<and>
   (distinct (map fst q) \<and> list_all (\<lambda>kv. array_index (fst kv) = None) q \<longrightarrow>
      for_in q = (q :: (string \<times> qvalue) list)) \<and>
   (list_all plain_query loaders \<longrightarrow> stringifyLoaders loaders = spec_chain_descriptor loaders)"
proof -
  have "stringifyLoader = stage_text"
    by (rule ext) (rule stringifyLoader_stage_text)
  then have 1: "stringifyLoaders loaders = chain_descriptor loaders"
    by (simp add: stringifyLoaders_def chain_descriptor_def js_join_joined_by)
  have "map stage_text loaders = map spec_stage_text loaders" if "list_all plain_query loaders"
    using that by (induction loaders) (simp_all add: stage_text_plain)
  then have 3: "list_all plain_query loaders \<longrightarrow>
      stringifyLoaders loaders = spec_chain_descriptor loaders"
    unfolding 1 chain_descriptor_def spec_chain_descriptor_def by presburger
  show ?thesis using 1 3 for_in_plain [of q] by blast
qed

theorem stringifyLoaders_chain_descriptor_witness:
  "stringifyLoaders
     [LoaderName ''/loader/script.js'',
      LoaderObj ''babel-loader''
        (Some [(''extends'', QStr ''/babel.config.js''), (''targets'', QStr ''node 8''),
               (''cache'', QBool True), (''only'', QArray [''a'', ''b'']),
               (''skip'', QNull), (''strict'', QBool False)]),
      LoaderObj ''/loader/manifest-loader.js'' (Some [])] =
     ''/loader/script.js!babel-loader?extends=/babel.config.js&targets=node 8&cache&only[]=a,b&strict=false!/loader/manifest-loader.js'' \<and>
   for_in [(''extends'', QStr ''/babel.config.js''), (''targets'', QStr ''node 8'')] =
     [(''extends'', QStr ''/babel.config.js''), (''targets'', QStr ''node 8'')]"
proof -
  let ?q = "[(''extends'', QStr ''/babel.config.js''), (''targets'', QStr ''node 8''),
             (''cache'', QBool True), (''only'', QArray [''a'', ''b'']),
             (''skip'', QNull), (''strict'', QBool False)]"
  let ?l = "[LoaderName ''/loader/script.js'', LoaderObj ''babel-loader'' (Some ?q),
             LoaderObj ''/loader/manifest-loader.js'' (Some [])]"
  let ?r = "[(''extends'', QStr ''/babel.config.js''), (''targets'', QStr ''node 8'')]"
  note descriptor = stringifyLoaders_chain_descriptor [of ?l ?r]
  have plain: "list_all plain_query ?l"
    by code_simp
  have keys: "distinct (map fst ?r) \<and> list_all (\<lambda>kv. array_index (fst kv) = None) ?r"
    by code_simp
  have words: "spec_chain_descriptor ?l =
    ''/loader/script.js!babel-loader?extends=/babel.config.js&targets=node 8&cache&only[]=a,b&strict=false!/loader/manifest-loader.js''"
    by code_simp
  have "stringifyLoaders ?l = spec_chain_descriptor ?l"
    using descriptor plain by blast
  moreover have "for_in ?r = ?r"
    using descriptor keys by blast
  ultimately show ?thesis
    using words by simp
qed

lemma for_in_integer_keys:
  "for_in [(''b'', QStr ''x''), (''10'', QStr ''y''), (''2'', QStr ''z'')] =
     [(''2'', QStr ''z''), (''10'', QStr ''y''), (''b'', QStr ''x'')]"
proof -
  have d: "is_digit CHR ''1''" "is_digit CHR ''0''" "is_digit CHR ''2''" "\<not> is_digit CHR ''b''"
    by (simp_all add: is_digit_def)
  have "array_index ''10'' = Some 10" "array_index ''2'' = Some 2" "array_index ''b'' = None"
    by (simp_all add: array_index_def d)
  then show ?thesis by (simp add: for_in_def js_put_def has_key_def)
qed

lemma for_in_element: "for_in [(''element'', v)] = [(''element'', v)]"
  by (simp add: for_in_def js_put_def has_key_def array_index_def is_digit_def)

text \<open>
  The claim as the specification states it fails in two points. A query whose keys were
  inserted as \<open>b\<close>, \<open>10\<close>, \<open>2\<close> is serialized as \<open>2\<close>, \<open>10\<close>, \<open>b\<close>: the keys that are
  array indices come first, in ascending order. And the query of the element stage,
  whose only value is absent when the element has a source, is not empty but appends
  no \<open>?\<close>.
\<close>

theorem enumeration_order_not_insertion_order:
  "stringifyLoaders
     [LoaderObj ''l'' (Some [(''b'', QStr ''x''), (''10'', QStr ''y''), (''2'', QStr ''z'')])] =
     ''l?2=z&10=y&b=x'' \<and>
   spec_chain_descriptor
     [LoaderObj ''l'' (Some [(''b'', QStr ''x''), (''10'', QStr ''y''), (''2'', QStr ''z'')])] =
     ''l?b=x&10=y&2=z'' \<and>
   stringifyLoaders [LoaderObj ''/loader/main.js'' (Some [(''element'', QUndefined)])] =
     ''/loader/main.js'' \<and>
   spec_chain_descriptor [LoaderObj ''/loader/main.js'' (Some [(''element'', QUndefined)])] =
     ''/loader/main.js?''"
  by (simp add: stringifyLoaders_def stringifyLoader_def spec_chain_descriptor_def
      spec_stage_text_def for_in_integer_keys for_in_element)

lemma error_prefix_exclusive:
  "startsWith r ''ERROR'' \<Longrightarrow> \<not> startsWith r ''NOTE'' \<and> \<not> startsWith r ''WARN''"
  by (cases r) (auto simp: startsWith_def)

lemma severity_Error_iff: "severity_of log = Error \<longleftrightarrow> startsWith (reason log) ''ERROR''"
  using error_prefix_exclusive [of "reason log"] by (auto simp: severity_of_def)

lemma fst_log_step:
  "fst (log_step lvl p (flag, out) log) \<longleftrightarrow> flag \<or> (lvl \<le> 3 \<and> severity_of log = Error)"
  using error_prefix_exclusive [of "reason log"] by (auto simp: severity_Error_iff)

lemma fst_foldl_log_step:
  "fst (foldl (log_step lvl p) st logs) \<longleftrightarrow>
     fst st \<or> (lvl \<le> 3 \<and> (\<exists>log \<in> set logs. severity_of log = Error))"
proof (induction logs arbitrary: st)
  case Nil
  then show ?case by simp
next
  case (Cons log logs)
  obtain flag out where st: "st = (flag, out)" by (cases st)
  have "fst (foldl (log_step lvl p) st (log # logs)) \<longleftrightarrow>
          fst (log_step lvl p (flag, out) log) \<or>
          (lvl \<le> 3 \<and> (\<exists>l \<in> set logs. severity_of l = Error))"
    using Cons [of "log_step lvl p (flag, out) log"] st by simp
  then show ?case
    unfolding fst_log_step using st by auto
qed

text \<open>
  C3, as the code has it. The returned flag is true exactly when the configured log
  level is 1, 2 or 3 and the list holds an entry whose reason starts with \<open>ERROR\<close>. So a
  list of Note and Warn entries alone gives false at every level, and within the levels
  1 to 3 the flag does not depend on which Note and Warn entries the level lets through;
  with the level unset, not positive or above 3 the flag is false for every list.
\<close>

theorem logWarn_flag_iff:
  "fst (logWarn logLevel resourcePath logs) \<longleftrightarrow>
     (\<exists>lvl. logLevel = Some lvl \<and> 0 < lvl \<and> lvl \<le> 3) \<and>
     (\<exists>log \<in> set logs. severity_of log = Error)"
proof (cases logLevel)
  case None
  then show ?thesis by (simp add: logWarn_def)
next
  case (Some lvl)
  then show ?thesis
    by (auto simp: logWarn_def fst_foldl_log_step)
qed

theorem logWarn_flag_iff_witness:
  "fst (logWarn (Some 2) ''/p/index.hml''
     [\<lparr>reason = ''NOTE: a'', line = None, column = None\<rparr>,
      \<lparr>reason = ''ERROR: b'', line = Some 3, column = Some 1\<rparr>]) \<and>
   \<not> fst (logWarn (Some 1) ''/p/index.hml''
     [\<lparr>reason = ''NOTE: a'', line = None, column = None\<rparr>,
      \<lparr>reason = ''WARNING: b'', line = None, column = None\<rparr>])"
  using logWarn_flag_iff [of "Some 2" "''/p/index.hml''"
      "[\<lparr>reason = ''NOTE: a'', line = None, column = None\<rparr>,
        \<lparr>reason = ''ERROR: b'', line = Some 3, column = Some 1\<rparr>]"]
    logWarn_flag_iff [of "Some 1" "''/p/index.hml''"
      "[\<lparr>reason = ''NOTE: a'', line = None, column = None\<rparr>,
        \<lparr>reason = ''WARNING: b'', line = None, column = None\<rparr>]"]
  by (simp add: severity_of_def startsWith_def)

text \<open>
  The claim as the specification states it fails: an Error entry does not set the flag
  when the log level is above 3, is 0, or is unset.
\<close>

theorem logWarn_error_not_flagged:
  "severity_of \<lparr>reason = ''ERROR: boom'', line = None, column = None\<rparr> = Error \<and>
   \<not> fst (logWarn (Some 4) ''/p/index.hml''
         [\<lparr>reason = ''ERROR: boom'', line = None, column = None\<rparr>]) \<and>
   \<not> fst (logWarn (Some 0) ''/p/index.hml''
         [\<lparr>reason = ''ERROR: boom'', line = None, column = None\<rparr>]) \<and>
   \<not> fst (logWarn None ''/p/index.hml''
         [\<lparr>reason = ''ERROR: boom'', line = None, column = None\<rparr>])"
  by (simp add: severity_of_def startsWith_def logWarn_def)











lemma register_included_unit:
  assumes "els A = Some r" and "\<not> truthy_el (record_get r ''parent'')" and "A \<noteq> B" and "A \<noteq> []"
  shows "register_unit (included_unit B n A) name els =
           (els(B \<mapsto> record_set (or_empty els B) ''parent'' (EStr A)), EStr A)"
  using assms by (simp add: register_unit_def included_unit_def truthy_str_def Let_def)

lemma reserve_name_collision:
  assumes "st_elements st A = Some r" and "truthy_el (record_get r n)"
  shows "reserve_name h ctx (EStr A) n st =
           warn h ctx
             (''ERROR: The element name can not be same with the page '' @ [CHR 0x22] @ n @
              [CHR 0x22] @ '' (ignore case).'') st"
proof -
  have "(st_elements st)(A \<mapsto> r) = st_elements st"
    using assms(1) by (simp add: fun_upd_idem)
  then show ?thesis
    using assms by (simp add: reserve_name_def or_empty_def key_of_def Let_def)
qed

text \<open>
  C1, on the code. In a fresh build the entry page \<open>index\<close> includes \<open>b\<close> under the name
  \<open>x\<close> and \<open>b\<close> includes \<open>c\<close> under the name \<open>x\<close>. When nothing else touches the
  record of \<open>index\<close>, the second \<open>x\<close> is looked up under the path of \<open>index\<close> and the
  collision is reported. When \<open>index\<close> is also included by the entry page \<open>home\<close> (so
  its record has a parent), the loader stores the record object of \<open>home\<close> as the parent
  of \<open>b\<close>, the name is looked up under the key \<open>[object Object]\<close>, and nothing is
  reported. When \<open>index\<close> also includes an element named \<open>parent\<close>, the name is looked up
  under the key \<open>undefined\<close>, and nothing is reported.
\<close>

theorem flattening_lookup_keys:
  "(let h = sample_host (\<lambda>f. True) sample_markup;
        (st1, out1) = loader h sample_loaders (entry_unit ''/proj/pages/index.hml'') ''index''
                        empty_state;
        (st2, out2) = loader h sample_loaders
                        (included_unit ''/proj/pages/b.hml'' ''x'' ''/proj/pages/index.hml'') ''b'' st1
    in scope_has st1 ''/proj/pages/index.hml'' ''x'' = Some ETrue \<and>
       scope_has st2 ''/proj/pages/b.hml'' ''parent'' = Some (EStr ''/proj/pages/index.hml'') \<and>
       length (st_emitted st2) = 1) \<and>
   (let h = sample_host (\<lambda>f. True) sample_markup;
        (st1, out1) = loader h sample_loaders (entry_unit ''/proj/pages/index.hml'') ''index''
                        empty_state;
        (st2, out2) = loader h sample_loaders (entry_unit ''/proj/pages/home.hml'') ''home'' st1;
        (st3, out3) = loader h sample_loaders
                        (included_unit ''/proj/pages/index.hml'' ''a'' ''/proj/pages/home.hml'')
                        ''index'' st2;
        (st4, out4) = loader h sample_loaders
                        (included_unit ''/proj/pages/b.hml'' ''x'' ''/proj/pages/index.hml'') ''b'' st3
    in scope_has st3 ''/proj/pages/index.hml'' ''x'' = Some ETrue \<and>
       scope_has st3 ''/proj/pages/home.hml'' ''x'' = Some ETrue \<and>
       scope_has st3 ''/proj/pages/index.hml'' ''parent'' = Some (EStr ''/proj/pages/home.hml'') \<and>
       scope_has st4 ''/proj/pages/b.hml'' ''parent'' = Some EObj \<and>
       scope_has st3 ''[object Object]'' ''x'' = None \<and>
       scope_has st4 ''[object Object]'' ''x'' = Some ETrue \<and>
       st_emitted st4 = []) \<and>
   (let h = sample_host (\<lambda>f. True) sample_markup;
        (st1, out1) = loader h sample_loaders (entry_unit ''/proj/pages/index.hml'')
                        ''index with parent'' empty_state;
        (st2, out2) = loader h sample_loaders
                        (included_unit ''/proj/pages/b.hml'' ''x'' ''/proj/pages/index.hml'') ''b'' st1
    in scope_has st1 ''/proj/pages/index.hml'' ''x'' = Some ETrue \<and>
       scope_has st2 ''/proj/pages/b.hml'' ''parent'' = Some EUndefined \<and>
       scope_has st2 ''undefined'' ''x'' = Some ETrue \<and>
       st_emitted st2 = [])"
  by code_simp

lemma loadPage_not_empty:
  assumes "js_includes (path_extname h (ctx_resourcePath ctx)) ''.hml''"
  shows "snd (loadPage h dl ctx name isEntry source parentPath st) \<noteq> []"
  using assms
  by (simp add: loadPage_def Let_def split: prod.splits)

lemma loadPageFindJs_missing:
  assumes "\<not> fs_exists h (filename @ ''.js'')"
  shows "loadPageFindJs h dl filename st =
           (st\<lparr>st_console := st_console st @ [''missing '' @ filename @ ''.js'']\<rparr>, False, [])"
  using assms by (simp add: loadPageFindJs_def)

text \<open>
  C4, on the code. The entry page \<open>index\<close> has no sibling script and one custom element
  whose source \<open>./missing.hml\<close> does not exist. The missing script leaves a console line
  and no diagnostic; the missing element source is reported as an error, but only the
  element references are dropped: the generated code of the unit is not empty, it still
  holds the template reference and the component registration.
\<close>

theorem missing_element_output:
  "(let h = sample_host (\<lambda>f. f = ''/proj/pages/index.hml'') sample_markup;
        (st1, out1) = loader h sample_loaders (entry_unit ''/proj/pages/index.hml'') ''broken''
                        empty_state
    in length (st_emitted st1) = 1 \<and>
       (case hd (st_emitted st1) of EmitError m \<Rightarrow> True | EmitWarning m \<Rightarrow> False) \<and>
       st_console st1 = [''missing /proj/pages/index.js''] \<and>
       out1 \<noteq> [] \<and>
       startsWith out1 ''var $app_template$ = require('')"
  by code_simp

lemma replace_inert_prefix:
  assumes "\<And>a1 a2 p. x = a1 @ a2 \<Longrightarrow> a2 \<noteq> [] \<Longrightarrow> m p (a2 @ r) = None"
  shows "replace_matches m f prev (x @ r) =
           x @ replace_matches m f (if x = [] then prev else Some (last x)) r"
  using assms
proof (induction x arbitrary: prev)
  case Nil
  show ?case by simp
next
  case (Cons c cs)
  have "m prev ((c # cs) @ r) = None"
    using Cons.prems [of "[]" "c # cs"] by simp
  moreover have "replace_matches m f (Some c) (cs @ r) =
                   cs @ replace_matches m f (if cs = [] then Some c else Some (last cs)) r"
  proof (rule Cons.IH)
    fix a1 a2 p
    assume "cs = a1 @ a2" and "a2 \<noteq> []"
    then show "m p (a2 @ r) = None"
      using Cons.prems [of "c # a1" a2] by simp
  qed
  ultimately show ?case by simp
qed

lemma replace_prev: "m p s = m q s \<Longrightarrow> replace_matches m f p s = replace_matches m f q s"
  by (cases s) simp_all

lemma replace_head:
  assumes "m prev (occ @ r) = Some (length occ)" and "occ \<noteq> []"
  shows "replace_matches m f prev (occ @ r) = f occ @ replace_matches m f (Some (last occ)) r"
proof -
  obtain c cs where occ: "occ = c # cs"
    using assms(2) by (cases occ) auto
  then have "m prev (c # cs @ r) = Some (Suc (length cs))"
    using assms(1) by simp
  then show ?thesis
    using occ by simp
qed

lemma startsWith_append:
  assumes "startsWith (a @ r) p"
  shows "startsWith a p \<or> (\<exists>t n. t \<noteq> [] \<and> p = a @ t \<and> t = take n r)"
proof (cases "length p \<le> length a")
  case True
  then show ?thesis using assms by (simp add: startsWith_def)
next
  case False
  then have "p = a @ take (length p - length a) r"
    using assms by (simp add: startsWith_def)
  moreover have "take (length p - length a) r \<noteq> []"
    using False calculation by (metis append_Nil2 order_refl)
  ultimately show ?thesis by blast
qed

lemma startsWith_append_hd:
  assumes "startsWith (a @ r) p" and "a \<noteq> []"
  shows "startsWith a p \<or> (r \<noteq> [] \<and> hd r \<in> set (tl p))"
  using startsWith_append [OF assms(1)]
proof
  assume "startsWith a p"
  then show ?thesis ..
next
  assume "\<exists>t n. t \<noteq> [] \<and> p = a @ t \<and> t = take n r"
  then obtain t n where t: "t \<noteq> []" "p = a @ t" "t = take n r"
    by blast
  have "r \<noteq> []"
    using t(1,3) by auto
  moreover have "hd t = hd r"
    using t(1,3) by (cases r; cases n) auto
  moreover have "hd t \<in> set (tl p)"
    using t(1,2) assms(2) by (cases a) auto
  ultimately show ?thesis by simp
qed

lemma startsWith_append_last:
  assumes "startsWith (a @ r) p" and "a \<noteq> []"
  shows "startsWith a p \<or> last a \<in> set (butlast p)"
  using startsWith_append [OF assms(1)]
proof
  assume "startsWith a p"
  then show ?thesis ..
next
  assume "\<exists>t n. t \<noteq> [] \<and> p = a @ t \<and> t = take n r"
  then obtain t where t: "t \<noteq> []" "p = a @ t"
    by blast
  then have "butlast p = a @ butlast t"
    by (simp add: butlast_append)
  then show ?thesis
    using assms(2) by simp
qed

lemma js_includes_suffix: "startsWith a2 p \<Longrightarrow> a2 \<noteq> [] \<Longrightarrow> js_includes (a1 @ a2) p"
proof (induction a1)
  case Nil
  then show ?case by (cases a2) simp_all
next
  case (Cons c a1)
  then show ?case by simp
qed

lemma starts_event_hd: "startsWith s ''$event.'' \<Longrightarrow> s \<noteq> [] \<and> hd s = CHR ''$''"
  by (cases s) (auto simp: startsWith_def)

lemma pass1_prev:
  "replace_matches match_event_string f p s = replace_matches match_event_string f None s"
  by (rule replace_prev) (simp add: match_event_string_def)

lemma pass2_prev: "replace_matches match_event f p s = replace_matches match_event f None s"
  by (rule replace_prev) (simp add: match_event_def)

lemma pass3_prev: "replace_matches match_this f p s = replace_matches match_this f None s"
  by (rule replace_prev) (simp add: match_this_def)

lemma quote_not_space: "\<not> is_space (CHR 0x22)" "\<not> is_space (CHR 0x27)"
  by (simp_all add: is_space_def)

lemma last_visible_after:
  assumes "\<forall>d\<in>set x'. is_space d" and "\<not> is_space c"
  shows "last_visible (a1 @ c # x') = Some c"
proof -
  have spaces: "dropWhile is_space (rev x') = []"
    using assms(1) by (simp add: dropWhile_eq_Nil_conv)
  show ?thesis
    using assms(2) by (simp add: last_visible_def dropWhile_append3 spaces)
qed

lemma event_string_inert:
  assumes "CHR ''$'' \<notin> set x"
    and "\<not> after_quote x \<or> \<not> startsWith (dropWhile is_space r) ''$event.''"
    and "x = a1 @ a2" and "a2 \<noteq> []"
  shows "match_event_string p (a2 @ r) = None"
proof -
  obtain c x' where a2: "a2 = c # x'"
    using assms(4) by (cases a2) auto
  show ?thesis
  proof (cases "c = CHR 0x22 \<or> c = CHR 0x27")
    case False
    then show ?thesis using a2 by (simp add: match_event_string_def)
  next
    case True
    have "\<not> startsWith (dropWhile is_space (x' @ r)) ''$event.''"
    proof (cases "\<forall>d\<in>set x'. is_space d")
      case True
      then have dw: "dropWhile is_space (x' @ r) = dropWhile is_space r"
        by (simp add: dropWhile_append2)
      have "\<not> is_space c"
        using \<open>c = CHR 0x22 \<or> c = CHR 0x27\<close> quote_not_space by auto
      then have "last_visible x = Some c"
        using assms(3) a2 True last_visible_after by simp
      then have "after_quote x"
        using \<open>c = CHR 0x22 \<or> c = CHR 0x27\<close> by (auto simp: after_quote_def)
      then show ?thesis using assms(2) dw by simp
    next
      case False
      then obtain d where d: "d \<in> set x'" "\<not> is_space d" by blast
      then have dw: "dropWhile is_space (x' @ r) = dropWhile is_space x' @ r"
        by (simp add: dropWhile_append1)
      have ne: "dropWhile is_space x' \<noteq> []"
        using d by (auto simp: dropWhile_eq_Nil_conv)
      then have "hd (dropWhile is_space x') \<in> set x'"
        by (metis hd_in_set set_dropWhileD)
      then have "hd (dropWhile is_space x') \<noteq> CHR ''$''"
        using assms(1,3) a2 by auto
      then have "hd (dropWhile is_space x' @ r) \<noteq> CHR ''$''"
        using ne by simp
      then show ?thesis using dw starts_event_hd by metis
    qed
    then show ?thesis using a2 by (simp add: match_event_string_def Let_def)
  qed
qed

lemma pass1_prefix:
  assumes "CHR ''$'' \<notin> set x"
    and "\<not> after_quote x \<or> \<not> startsWith (dropWhile is_space r) ''$event.''"
  shows "replace_matches match_event_string f p (x @ r) =
           x @ replace_matches match_event_string f None r"
proof -
  have "replace_matches match_event_string f p (x @ r) =
          x @ replace_matches match_event_string f (if x = [] then p else Some (last x)) r"
    using event_string_inert [OF assms] by (intro replace_inert_prefix) blast
  then show ?thesis
    using pass1_prev by metis
qed

lemma pass1_quote_free:
  assumes "CHR 0x22 \<notin> set x" and "CHR 0x27 \<notin> set x"
  shows "replace_matches match_event_string f p (x @ r) =
           x @ replace_matches match_event_string f None r"
proof -
  have "match_event_string q (a2 @ r) = None" if split: "x = a1 @ a2" "a2 \<noteq> []" for a1 a2 q
  proof -
    obtain c x' where a2: "a2 = c # x'"
      using split(2) by (cases a2) auto
    then have "c \<noteq> CHR 0x22 \<and> c \<noteq> CHR 0x27"
      using assms split(1) by auto
    then show ?thesis using a2 by (simp add: match_event_string_def)
  qed
  then have "replace_matches match_event_string f p (x @ r) =
          x @ replace_matches match_event_string f (if x = [] then p else Some (last x)) r"
    by (intro replace_inert_prefix) blast
  then show ?thesis
    using pass1_prev by metis
qed

lemma pass2_prefix:
  assumes "CHR ''$'' \<notin> set x"
  shows "replace_matches match_event f p (x @ r) = x @ replace_matches match_event f None r"
proof -
  have "match_event q (a2 @ r) = None" if "x = a1 @ a2" and "a2 \<noteq> []" for a1 a2 q
  proof -
    have "hd (a2 @ r) \<in> set x"
      using that by simp
    then have "\<not> startsWith (a2 @ r) ''$event.''"
      using assms starts_event_hd by metis
    then show ?thesis by (simp add: match_event_def)
  qed
  then have "replace_matches match_event f p (x @ r) =
          x @ replace_matches match_event f (if x = [] then p else Some (last x)) r"
    by (intro replace_inert_prefix) blast
  then show ?thesis
    using pass2_prev by metis
qed

lemma pass3_prefix:
  assumes "\<not> js_includes x ''this.''"
    and "(r \<noteq> [] \<and> hd r \<notin> set ''his.'') \<or> (x \<noteq> [] \<and> last x \<notin> set ''this'')"
  shows "replace_matches match_this f p (x @ r) = x @ replace_matches match_this f None r"
proof -
  have "match_this q (a2 @ r) = None" if "x = a1 @ a2" and "a2 \<noteq> []" for a1 a2 q
  proof -
    have "\<not> startsWith (a2 @ r) ''this.''"
    proof
      assume s: "startsWith (a2 @ r) ''this.''"
      have no: "\<not> startsWith a2 ''this.''"
        using assms(1) that js_includes_suffix by blast
      from assms(2) show False
      proof
        assume "r \<noteq> [] \<and> hd r \<notin> set ''his.''"
        then show False
          using startsWith_append_hd [OF s that(2)] no by simp
      next
        assume "x \<noteq> [] \<and> last x \<notin> set ''this''"
        moreover have "last a2 = last x"
          using that by simp
        ultimately show False
          using startsWith_append_last [OF s that(2)] no by simp
      qed
    qed
    then show ?thesis by (simp add: match_this_def)
  qed
  then have "replace_matches match_this f p (x @ r) =
          x @ replace_matches match_this f (if x = [] then p else Some (last x)) r"
    by (intro replace_inert_prefix) blast
  then show ?thesis
    using pass3_prev by metis
qed

lemma ends_line_pass1: "ends_line s \<Longrightarrow> ends_line (replace_matches match_event_string f p s)"
  by (cases s) (auto simp: ends_line_def match_event_string_def is_line_end_def)

lemma ends_line_pass2: "ends_line s \<Longrightarrow> ends_line (replace_matches match_event f p s)"
  by (cases s) (auto simp: ends_line_def match_event_def startsWith_def is_line_end_def)

lemma rest_of_line_ends: "ends_line s \<Longrightarrow> rest_of_line s = []"
  by (cases s) (simp_all add: ends_line_def rest_of_line_def)

lemma rest_of_line_Cons:
  "rest_of_line (c # s) = (if is_line_end c then [] else c # rest_of_line s)"
  by (simp add: rest_of_line_def)

lemma word_run_ends: "ends_word s \<Longrightarrow> takeWhile is_word s = []"
  by (cases s) (simp_all add: ends_word_def)

lemma last_index_none: "q \<notin> set s \<Longrightarrow> last_index q s = None"
  by (induction s) auto

lemma match_this_count: "ends_line r \<Longrightarrow> match_this p (''this.count'' @ r) = Some 10"
  by (simp add: match_this_def startsWith_def rest_of_line_Cons is_line_end_def
      rest_of_line_ends)

lemma match_this_count_comma: "ends_line r \<Longrightarrow> match_this p (''this.count,'' @ r) = Some 11"
  by (simp add: match_this_def startsWith_def rest_of_line_Cons is_line_end_def
      rest_of_line_ends)

lemma word_chars:
  "is_word CHR ''t''" "is_word CHR ''a''" "is_word CHR ''p''" "is_word CHR ''d''"
  "is_word CHR ''e''" "is_word CHR ''i''" "is_word CHR ''l''" "\<not> is_word CHR ''$''"
  by (simp_all add: is_word_def)

lemma space_not_word: "is_space c \<Longrightarrow> \<not> is_word c"
  by (auto simp: is_space_def is_word_def)

lemma match_event_tap: "ends_word r \<Longrightarrow> match_event p (''$event.tap'' @ r) = Some 10"
  by (simp add: match_event_def startsWith_def word_chars word_run_ends)

lemma match_event_detail: "ends_word r \<Longrightarrow> match_event p (''$event.detail'' @ r) = Some 13"
  by (simp add: match_event_def startsWith_def word_chars word_run_ends)

lemma match_quoted_detail:
  assumes "CHR 0x22 \<notin> set (rest_of_line r)"
  shows "match_event_string p ([CHR 0x22] @ ''$event.detail'' @ [CHR 0x22] @ r) = Some 15"
  using last_index_none [OF assms]
  by (simp add: match_event_string_def startsWith_def is_space_def rest_of_line_Cons
      is_line_end_def)

lemma ends_word_pass1:
  assumes "ends_word s"
  shows "ends_word (replace_matches match_event_string slice_inner p s)"
proof (cases s)
  case Nil
  then show ?thesis by (simp add: ends_word_def)
next
  case (Cons c cs)
  have nw: "\<not> is_word c"
    using assms Cons by (simp add: ends_word_def)
  show ?thesis
  proof (cases "match_event_string p (c # cs)")
    case None
    then show ?thesis using Cons nw by (simp add: ends_word_def)
  next
    case (Some n)
    show ?thesis
    proof (cases n)
      case 0
      then show ?thesis using Cons Some nw by (simp add: ends_word_def)
    next
      case (Suc k)
      have st: "startsWith (dropWhile is_space cs) ''$event.''" and k: "8 \<le> k"
        using Some Suc
        by (auto simp: match_event_string_def Let_def split: if_splits option.splits)
      obtain d cs' where cs: "cs = d # cs'"
        using st by (cases cs) (auto simp: startsWith_def)
      have d: "\<not> is_word d"
      proof (cases "is_space d")
        case True
        then show ?thesis by (rule space_not_word)
      next
        case False
        then have "d = CHR ''$''"
          using st cs starts_event_hd [of "d # cs'"] by simp
        then show ?thesis by (simp add: word_chars)
      qed
      have "cs' \<noteq> []"
        using st cs by (cases "is_space d") (auto simp: startsWith_def)
      then have "take (k - 1) cs' \<noteq> []"
        using k by simp
      moreover have "take k (d # cs') = d # take (k - 1) cs'"
        using k by (cases k) simp_all
      ultimately have "slice_inner (c # take k cs) = d # butlast (take (k - 1) cs')"
        using cs by (simp add: slice_inner_def)
      then show ?thesis
        using Cons Some Suc d by (simp add: ends_word_def)
    qed
  qed
qed

lemma bind_this_count:
  assumes "tca ''this.count'' = ''this.count''"
  shows \<open>bind_this tca ''this.count'' = ''"{{count}}"''\<close>
    and \<open>bind_this tca ''this.count,'' = ''"{{count}}",''\<close>
proof -
  have 1: \<open>strip_this (''"{{this.count}}"'') = ''"{{count}}"''\<close>
    by code_simp
  have 2: \<open>strip_this (''"{{this.count}}",'') = ''"{{count}}",''\<close>
    by code_simp
  show \<open>bind_this tca ''this.count'' = ''"{{count}}"''\<close>
    using assms 1 by (simp add: bind_this_def)
  show \<open>bind_this tca ''this.count,'' = ''"{{count}}",''\<close>
    using assms 2 by (simp add: bind_this_def)
qed

lemma this_binding_in_text:
  assumes "rrp s = pre @ occ @ post" and "untouched pre" and "ends_line post"
    and "occ = ''this.count'' \<or> occ = ''this.count,''"
    and "match_this None (occ @
           replace_matches match_event (\<lambda>item. [CHR 0x22] @ item @ [CHR 0x22]) None
             (replace_matches match_event_string slice_inner None post)) = Some (length occ)"
  shows "rewrite_card rrp tca s = pre @ bind_this tca occ @ rewrite_card (\<lambda>t. t) tca post"
proof -
  let ?P1 = "replace_matches match_event_string slice_inner None"
  let ?P2 = "replace_matches match_event (\<lambda>item. [CHR 0x22] @ item @ [CHR 0x22]) None"
  let ?P3 = "replace_matches match_this (bind_this tca) None"
  have dollar: "CHR ''$'' \<notin> set (pre @ occ)"
    using assms(2,4) by (auto simp: untouched_def)
  have quote: "\<not> after_quote (pre @ occ)"
    using assms(4) by (auto simp: after_quote_def last_visible_def is_space_def)
  have ne: "occ \<noteq> []"
    using assms(4) by auto
  have 1: "?P1 (pre @ occ @ post) = pre @ occ @ ?P1 post"
    using pass1_prefix [of "pre @ occ" post slice_inner None] dollar quote by simp
  have 2: "?P2 (pre @ occ @ ?P1 post) = pre @ occ @ ?P2 (?P1 post)"
    using pass2_prefix [where x = "pre @ occ" and r = "?P1 post" and p = None] dollar by simp
  have "hd (occ @ ?P2 (?P1 post)) \<notin> set ''his.''"
    using assms(4) by auto
  then have 3: "?P3 (pre @ occ @ ?P2 (?P1 post)) = pre @ ?P3 (occ @ ?P2 (?P1 post))"
    using pass3_prefix [of pre "occ @ ?P2 (?P1 post)" "bind_this tca" None] assms(2) ne
    by (simp add: untouched_def)
  have 4: "?P3 (occ @ ?P2 (?P1 post)) =
             bind_this tca occ @
             replace_matches match_this (bind_this tca) (Some (last occ)) (?P2 (?P1 post))"
    using assms(5) ne by (rule replace_head)
  have 5: "replace_matches match_this (bind_this tca) (Some (last occ)) (?P2 (?P1 post)) =
             ?P3 (?P2 (?P1 post))"
    by (rule pass3_prev)
  show ?thesis
    by (simp only: rewrite_card_def Let_def assms(1) 1 2 3 4 5)
qed

lemma this_count_in_text:
  assumes "rrp s = pre @ ''this.count'' @ post" and "untouched pre" and "ends_line post"
    and "tca ''this.count'' = ''this.count''"
  shows \<open>rewrite_card rrp tca s = pre @ ''"{{count}}"'' @ rewrite_card (\<lambda>t. t) tca post\<close>
proof -
  have "ends_line (replace_matches match_event (\<lambda>item. [CHR 0x22] @ item @ [CHR 0x22]) None
          (replace_matches match_event_string slice_inner None post))"
    using assms(3) by (intro ends_line_pass2 ends_line_pass1)
  then have "match_this None (''this.count'' @
           replace_matches match_event (\<lambda>item. [CHR 0x22] @ item @ [CHR 0x22]) None
             (replace_matches match_event_string slice_inner None post)) =
           Some (length ''this.count'')"
    using match_this_count by simp
  then show ?thesis
    using this_binding_in_text [where rrp = rrp and s = s and pre = pre and post = post
        and occ = "''this.count''" and tca = tca] assms bind_this_count(1) [of tca]
    by simp
qed


lemma this_count_comma_in_text:
  assumes "rrp s = pre @ ''this.count,'' @ post" and "untouched pre" and "ends_line post"
    and "tca ''this.count'' = ''this.count''"
  shows \<open>rewrite_card rrp tca s = pre @ ''"{{count}}",'' @ rewrite_card (\<lambda>t. t) tca post\<close>
proof -
  have "ends_line (replace_matches match_event (\<lambda>item. [CHR 0x22] @ item @ [CHR 0x22]) None
          (replace_matches match_event_string slice_inner None post))"
    using assms(3) by (intro ends_line_pass2 ends_line_pass1)
  then have "match_this None (''this.count,'' @
           replace_matches match_event (\<lambda>item. [CHR 0x22] @ item @ [CHR 0x22]) None
             (replace_matches match_event_string slice_inner None post)) =
           Some (length ''this.count,'')"
    using match_this_count_comma by simp
  then show ?thesis
    using this_binding_in_text [where rrp = rrp and s = s and pre = pre and post = post
        and occ = "''this.count,''" and tca = tca] assms bind_this_count(2) [of tca]
    by simp
qed

lemma quoted_event_untouched:
  assumes "occ = ''$event.tap'' \<or> occ = ''$event.detail''" and "\<not> js_includes pre ''this.''"
  shows "replace_matches match_this f None (pre @ [CHR 0x22] @ occ @ [CHR 0x22] @ r) =
           pre @ [CHR 0x22] @ occ @ [CHR 0x22] @ replace_matches match_this f None r"
proof -
  have inc: "\<not> js_includes ([CHR 0x22] @ occ @ [CHR 0x22]) ''this.''"
    using assms(1) by (auto simp: startsWith_def)
  have 1: "replace_matches match_this f None (pre @ ([CHR 0x22] @ occ @ [CHR 0x22]) @ r) =
             pre @ replace_matches match_this f None (([CHR 0x22] @ occ @ [CHR 0x22]) @ r)"
    using pass3_prefix [of pre "([CHR 0x22] @ occ @ [CHR 0x22]) @ r" f None] assms(2)
    by simp
  have 2: "replace_matches match_this f None (([CHR 0x22] @ occ @ [CHR 0x22]) @ r) =
             ([CHR 0x22] @ occ @ [CHR 0x22]) @ replace_matches match_this f None r"
    using pass3_prefix [of "[CHR 0x22] @ occ @ [CHR 0x22]" r f None] inc
    by simp
  show ?thesis
    using 1 2 by simp
qed

lemma bare_event_in_text:
  assumes "rrp s = pre @ ''$event.tap'' @ post" and "untouched pre" and "\<not> after_quote pre"
    and "ends_word post"
  shows \<open>rewrite_card rrp tca s = pre @ ''"$event.tap"'' @ rewrite_card (\<lambda>t. t) tca post\<close>
proof -
  let ?P1 = "replace_matches match_event_string slice_inner None"
  let ?q = "\<lambda>item. [CHR 0x22] @ item @ [CHR 0x22]"
  let ?P2 = "replace_matches match_event ?q None"
  let ?P3 = "replace_matches match_this (bind_this tca) None"
  define occ where "occ = ''$event.tap''"
  have ne: "occ \<noteq> []"
    by (simp add: occ_def)
  have dollar: "CHR ''$'' \<notin> set pre"
    using assms(2) by (simp add: untouched_def)
  have "?P1 (pre @ occ @ post) = pre @ ?P1 (occ @ post)"
    using pass1_prefix [of pre "occ @ post" slice_inner None] dollar assms(3) by simp
  moreover have "?P1 (occ @ post) = occ @ ?P1 post"
    by (rule pass1_quote_free) (simp_all add: occ_def)
  ultimately have 1: "?P1 (pre @ occ @ post) = pre @ occ @ ?P1 post"
    by simp
  have "match_event None (occ @ ?P1 post) = Some (length occ)"
    using match_event_tap [OF ends_word_pass1 [OF assms(4)]] by (simp add: occ_def)
  then have "?P2 (occ @ ?P1 post) =
               ?q occ @ replace_matches match_event ?q (Some (last occ)) (?P1 post)"
    using ne by (rule replace_head)
  moreover have "replace_matches match_event ?q (Some (last occ)) (?P1 post) = ?P2 (?P1 post)"
    by (rule pass2_prev)
  moreover have "?P2 (pre @ occ @ ?P1 post) = pre @ ?P2 (occ @ ?P1 post)"
    using pass2_prefix [where x = pre and r = "occ @ ?P1 post" and p = None] dollar by simp
  ultimately have 2: "?P2 (pre @ occ @ ?P1 post) =
                        pre @ [CHR 0x22] @ occ @ [CHR 0x22] @ ?P2 (?P1 post)"
    by simp
  have 3: "?P3 (pre @ [CHR 0x22] @ occ @ [CHR 0x22] @ ?P2 (?P1 post)) =
             pre @ [CHR 0x22] @ occ @ [CHR 0x22] @ ?P3 (?P2 (?P1 post))"
    using assms(2) by (intro quoted_event_untouched) (simp_all add: occ_def untouched_def)
  have a: "rrp s = pre @ occ @ post"
    using assms(1) by (simp add: occ_def)
  have "rewrite_card rrp tca s =
          pre @ [CHR 0x22] @ occ @ [CHR 0x22] @ rewrite_card (\<lambda>t. t) tca post"
    by (simp only: rewrite_card_def Let_def a 1 2 3)
  then show ?thesis
    by (simp add: occ_def)
qed

lemma quoted_event_in_text:
  assumes "rrp s = pre @ [CHR 0x22] @ ''$event.detail'' @ [CHR 0x22] @ post"
    and "untouched pre" and "CHR 0x22 \<notin> set (rest_of_line post)" and "ends_word post"
  shows "replace_matches match_event_string slice_inner None (rrp s) =
           pre @ ''$event.detail'' @ replace_matches match_event_string slice_inner None post"
    and "rewrite_card rrp tca s =
           pre @ [CHR 0x22] @ ''$event.detail'' @ [CHR 0x22] @ rewrite_card (\<lambda>t. t) tca post"
proof -
  let ?P1 = "replace_matches match_event_string slice_inner None"
  let ?q = "\<lambda>item. [CHR 0x22] @ item @ [CHR 0x22]"
  let ?P2 = "replace_matches match_event ?q None"
  let ?P3 = "replace_matches match_this (bind_this tca) None"
  define occ where "occ = ''$event.detail''"
  define qocc where "qocc = [CHR 0x22] @ occ @ [CHR 0x22]"
  have ne: "occ \<noteq> []" "qocc \<noteq> []"
    by (simp_all add: occ_def qocc_def)
  have dollar: "CHR ''$'' \<notin> set pre"
    using assms(2) by (simp add: untouched_def)
  have "\<not> startsWith (dropWhile is_space (qocc @ post)) ''$event.''"
    by (simp add: qocc_def is_space_def startsWith_def)
  then have "?P1 (pre @ qocc @ post) = pre @ ?P1 (qocc @ post)"
    using pass1_prefix [of pre "qocc @ post" slice_inner None] dollar by simp
  moreover have "match_event_string None (qocc @ post) = Some (length qocc)"
    using match_quoted_detail [OF assms(3)] by (simp add: qocc_def occ_def)
  then have "?P1 (qocc @ post) =
               slice_inner qocc @
               replace_matches match_event_string slice_inner (Some (last qocc)) post"
    using ne(2) by (rule replace_head)
  moreover have "replace_matches match_event_string slice_inner (Some (last qocc)) post =
                   ?P1 post"
    by (rule pass1_prev)
  moreover have "slice_inner qocc = occ"
    by (simp add: slice_inner_def qocc_def)
  ultimately have 1: "?P1 (pre @ qocc @ post) = pre @ occ @ ?P1 post"
    by simp
  have a: "rrp s = pre @ qocc @ post"
    using assms(1) by (simp add: occ_def qocc_def)
  show "?P1 (rrp s) = pre @ ''$event.detail'' @ ?P1 post"
    using 1 a by (simp add: occ_def)
  have "match_event None (occ @ ?P1 post) = Some (length occ)"
    using match_event_detail [OF ends_word_pass1 [OF assms(4)]] by (simp add: occ_def)
  then have "?P2 (occ @ ?P1 post) =
               ?q occ @ replace_matches match_event ?q (Some (last occ)) (?P1 post)"
    using ne(1) by (rule replace_head)
  moreover have "replace_matches match_event ?q (Some (last occ)) (?P1 post) = ?P2 (?P1 post)"
    by (rule pass2_prev)
  moreover have "?P2 (pre @ occ @ ?P1 post) = pre @ ?P2 (occ @ ?P1 post)"
    using pass2_prefix [where x = pre and r = "occ @ ?P1 post" and p = None] dollar by simp
  ultimately have 2: "?P2 (pre @ occ @ ?P1 post) =
                        pre @ [CHR 0x22] @ occ @ [CHR 0x22] @ ?P2 (?P1 post)"
    by simp
  have 3: "?P3 (pre @ [CHR 0x22] @ occ @ [CHR 0x22] @ ?P2 (?P1 post)) =
             pre @ [CHR 0x22] @ occ @ [CHR 0x22] @ ?P3 (?P2 (?P1 post))"
    using assms(2) by (intro quoted_event_untouched) (simp_all add: occ_def untouched_def)
  have "rewrite_card rrp tca s =
          pre @ [CHR 0x22] @ occ @ [CHR 0x22] @ rewrite_card (\<lambda>t. t) tca post"
    by (simp only: rewrite_card_def Let_def a 1 2 3)
  then show "rewrite_card rrp tca s =
           pre @ [CHR 0x22] @ ''$event.detail'' @ [CHR 0x22] @ rewrite_card (\<lambda>t. t) tca post"
    by (simp add: occ_def)
qed

lemma replace_split:
  assumes prev: "\<And>p s. m p s = m None s"
    and inside: "\<And>a1 a2. x = a1 @ a2 \<Longrightarrow> a2 \<noteq> [] \<Longrightarrow>
                   m None (a2 @ r) = m None a2 \<and> (\<forall>n. m None a2 = Some n \<longrightarrow> n \<le> length a2)"
  shows "replace_matches m f None (x @ r) =
           replace_matches m f None x @ replace_matches m f None r"
  using inside
proof (induction "length x" arbitrary: x rule: less_induct)
  case less
  have none: "replace_matches m f p s = replace_matches m f None s" for p s
    using prev [of p s] by (rule replace_prev)
  show ?case
  proof (cases x)
    case Nil
    then show ?thesis by simp
  next
    case (Cons c cs)
    have here: "m None ((c # cs) @ r) = m None (c # cs)"
      and fits: "\<forall>n. m None (c # cs) = Some n \<longrightarrow> n \<le> length (c # cs)"
      using less.prems [of "[]" "c # cs"] Cons by simp_all
    have later: "replace_matches m f None (y @ r) =
                   replace_matches m f None y @ replace_matches m f None r"
      if "x = a @ y" and "a \<noteq> []" for a y
    proof (rule less.hyps)
      show "length y < length x"
        using that by simp
      fix a1 a2
      assume "y = a1 @ a2" and "a2 \<noteq> []"
      then show "m None (a2 @ r) = m None a2 \<and>
                 (\<forall>n. m None a2 = Some n \<longrightarrow> n \<le> length a2)"
        using less.prems [of "a @ a1" a2] that(1) by simp
    qed
    show ?thesis
    proof (cases "m None (c # cs)")
      case None
      then show ?thesis
        using Cons here later [of "[c]" cs] by (simp add: none [of "Some c"])
    next
      case (Some n)
      show ?thesis
      proof (cases n)
        case 0
        then show ?thesis
          using Cons Some here later [of "[c]" cs] by (simp add: none [of "Some c"])
      next
        case (Suc k)
        then have k: "k \<le> length cs"
          using fits Some by simp
        have "x = (c # take k cs) @ drop k cs"
          using Cons by simp
        then have "replace_matches m f None (drop k cs @ r) =
                     replace_matches m f None (drop k cs) @ replace_matches m f None r"
          by (rule later) simp
        then show ?thesis
          using Cons Some Suc here k
          by (simp add: none [of "Some (last (c # take k cs))"] del: last.simps)
      qed
    qed
  qed
qed

lemma match_event_before_dollar:
  assumes "r \<noteq> []" and "hd r = CHR ''$''" and "a2 \<noteq> []"
  shows "match_event None (a2 @ r) = match_event None a2 \<and>
         (\<forall>n. match_event None a2 = Some n \<longrightarrow> n \<le> length a2)"
proof (cases "startsWith a2 ''$event.''")
  case True
  then have "length (take (length ''$event.'') a2) = length ''$event.''"
    unfolding startsWith_def by (rule arg_cong)
  then have long: "7 \<le> length a2"
    by simp
  have starts: "startsWith (a2 @ r) ''$event.''"
    using True long by (simp add: startsWith_def)
  have "\<not> is_word (hd r)"
    using assms(2) by (simp add: word_chars)
  then have "takeWhile is_word r = []"
    using assms(1) by (cases r) simp_all
  then have "takeWhile is_word (drop 7 a2 @ r) = takeWhile is_word (drop 7 a2)"
  proof (cases "\<forall>c\<in>set (drop 7 a2). is_word c")
    case True
    then have all: "takeWhile is_word (drop 7 a2) = drop 7 a2"
      by (simp add: takeWhile_eq_all_conv)
    have "takeWhile is_word (drop 7 a2 @ r) = drop 7 a2 @ takeWhile is_word r"
      using True by (simp add: takeWhile_append2)
    then show ?thesis
      by (simp only: all \<open>takeWhile is_word r = []\<close> append_Nil2)
  next
    case False
    then show ?thesis
      by (auto simp: takeWhile_append1)
  qed
  moreover have "length (takeWhile is_word (drop 7 a2)) \<le> length a2 - 7"
    using length_takeWhile_le [of is_word "drop 7 a2"] by simp
  ultimately show ?thesis
    using True starts long by (auto simp: match_event_def)
next
  case False
  have "\<not> startsWith (a2 @ r) ''$event.''"
    using startsWith_append_hd [of a2 r "''$event.''"] assms False by auto
  then show ?thesis
    using False by (simp add: match_event_def)
qed

lemma bare_event_pass:
  assumes "ends_word post"
  shows \<open>replace_matches match_event (\<lambda>item. [CHR 0x22] @ item @ [CHR 0x22]) None
            (pre @ ''$event.tap'' @ post) =
          replace_matches match_event (\<lambda>item. [CHR 0x22] @ item @ [CHR 0x22]) None pre @
          ''"$event.tap"'' @
          replace_matches match_event (\<lambda>item. [CHR 0x22] @ item @ [CHR 0x22]) None post\<close>
proof -
  let ?q = "\<lambda>item. [CHR 0x22] @ item @ [CHR 0x22]"
  let ?P2 = "replace_matches match_event ?q None"
  define occ where "occ = ''$event.tap''"
  have "?P2 (pre @ occ @ post) = ?P2 pre @ ?P2 (occ @ post)"
  proof (rule replace_split)
    show "match_event p s = match_event None s" for p s
      by (simp add: match_event_def)
    show "match_event None (a2 @ occ @ post) = match_event None a2 \<and>
          (\<forall>n. match_event None a2 = Some n \<longrightarrow> n \<le> length a2)"
      if "pre = a1 @ a2" and "a2 \<noteq> []" for a1 a2
      using that(2) by (intro match_event_before_dollar) (simp_all add: occ_def)
  qed
  moreover have "match_event None (occ @ post) = Some (length occ)"
    using match_event_tap [OF assms] by (simp add: occ_def)
  then have "?P2 (occ @ post) = ?q occ @ replace_matches match_event ?q (Some (last occ)) post"
    by (rule replace_head) (simp add: occ_def)
  moreover have "replace_matches match_event ?q (Some (last occ)) post = ?P2 post"
    by (rule pass2_prev)
  ultimately have "?P2 (pre @ occ @ post) = ?P2 pre @ [CHR 0x22] @ occ @ [CHR 0x22] @ ?P2 post"
    by simp
  then show ?thesis
    by (simp add: occ_def)
qed

text \<open>
  C2, as the code has it. Let the resource-reference pass leave a text in which the
  literal stands after a text without \<open>$\<close> and without \<open>this.\<close>. Then \<open>this.count\<close> at
  the end of its line becomes the quoted binding \<open>{{count}}\<close> (when \<^verbatim>\<open>transCardArray\<close>
  leaves that expression alone), and with a trailing comma at the end of the line the
  comma is kept after the closing quote; a bare \<open>$event.tap\<close> that no word character
  follows, and that does not stand right after a quote, is wrapped in double quotes; and
  a double-quoted \<open>$event.detail\<close> that no further double quote follows on its line
  loses its quotes in the first pass and gets them again in the second. In each case the
  text before the literal stays and the text after it is rewritten on its own. The
  bare-event pass itself wraps \<open>$event.tap\<close> in double quotes after any text, when no
  word character follows.
\<close>

theorem rewrite_card_occurrences:
  \<open>(rrp s = pre @ ''this.count'' @ post \<and> untouched pre \<and> ends_line post \<and>
    tca ''this.count'' = ''this.count'' \<longrightarrow>
      rewrite_card rrp tca s = pre @ ''"{{count}}"'' @ rewrite_card (\<lambda>t. t) tca post) \<and>
   (rrp s = pre @ ''this.count,'' @ post \<and> untouched pre \<and> ends_line post \<and>
    tca ''this.count'' = ''this.count'' \<longrightarrow>
      rewrite_card rrp tca s = pre @ ''"{{count}}",'' @ rewrite_card (\<lambda>t. t) tca post) \<and>
   (rrp s = pre @ ''$event.tap'' @ post \<and> untouched pre \<and> \<not> after_quote pre \<and>
    ends_word post \<longrightarrow>
      rewrite_card rrp tca s = pre @ ''"$event.tap"'' @ rewrite_card (\<lambda>t. t) tca post) \<and>
   (rrp s = pre @ ''"$event.detail"'' @ post \<and> untouched pre \<and>
    CHR 0x22 \<notin> set (rest_of_line post) \<and> ends_word post \<longrightarrow>
      replace_matches match_event_string slice_inner None (rrp s) =
        pre @ ''$event.detail'' @ replace_matches match_event_string slice_inner None post \<and>
      rewrite_card rrp tca s = pre @ ''"$event.detail"'' @ rewrite_card (\<lambda>t. t) tca post) \<and>
   (ends_word post \<longrightarrow>
      replace_matches match_event (\<lambda>item. [CHR 0x22] @ item @ [CHR 0x22]) None
        (pre @ ''$event.tap'' @ post) =
      replace_matches match_event (\<lambda>item. [CHR 0x22] @ item @ [CHR 0x22]) None pre @
      ''"$event.tap"'' @
      replace_matches match_event (\<lambda>item. [CHR 0x22] @ item @ [CHR 0x22]) None post)\<close>
proof (intro conjI impI)
  assume "rrp s = pre @ ''this.count'' @ post \<and> untouched pre \<and> ends_line post \<and>
    tca ''this.count'' = ''this.count''"
  then show \<open>rewrite_card rrp tca s = pre @ ''"{{count}}"'' @ rewrite_card (\<lambda>t. t) tca post\<close>
    using this_count_in_text [of rrp s pre post tca] by blast
next
  assume "rrp s = pre @ ''this.count,'' @ post \<and> untouched pre \<and> ends_line post \<and>
    tca ''this.count'' = ''this.count''"
  then show \<open>rewrite_card rrp tca s = pre @ ''"{{count}}",'' @ rewrite_card (\<lambda>t. t) tca post\<close>
    using this_count_comma_in_text [of rrp s pre post tca] by blast
next
  assume "rrp s = pre @ ''$event.tap'' @ post \<and> untouched pre \<and> \<not> after_quote pre \<and>
    ends_word post"
  then show \<open>rewrite_card rrp tca s = pre @ ''"$event.tap"'' @ rewrite_card (\<lambda>t. t) tca post\<close>
    using bare_event_in_text [of rrp s pre post tca] by blast
next
  assume h: \<open>rrp s = pre @ ''"$event.detail"'' @ post \<and> untouched pre \<and>
    CHR 0x22 \<notin> set (rest_of_line post) \<and> ends_word post\<close>
  then have "rrp s = pre @ [CHR 0x22] @ ''$event.detail'' @ [CHR 0x22] @ post"
    by simp
  then show "replace_matches match_event_string slice_inner None (rrp s) =
        pre @ ''$event.detail'' @ replace_matches match_event_string slice_inner None post"
    using h by (intro quoted_event_in_text(1)) simp_all
next
  assume h: \<open>rrp s = pre @ ''"$event.detail"'' @ post \<and> untouched pre \<and>
    CHR 0x22 \<notin> set (rest_of_line post) \<and> ends_word post\<close>
  then have "rrp s = pre @ [CHR 0x22] @ ''$event.detail'' @ [CHR 0x22] @ post"
    by simp
  then have "rewrite_card rrp tca s =
           pre @ [CHR 0x22] @ ''$event.detail'' @ [CHR 0x22] @ rewrite_card (\<lambda>t. t) tca post"
    using h by (intro quoted_event_in_text(2)) simp_all
  then show \<open>rewrite_card rrp tca s =
           pre @ ''"$event.detail"'' @ rewrite_card (\<lambda>t. t) tca post\<close>
    by simp
next
  assume "ends_word post"
  then show \<open>replace_matches match_event (\<lambda>item. [CHR 0x22] @ item @ [CHR 0x22]) None
        (pre @ ''$event.tap'' @ post) =
      replace_matches match_event (\<lambda>item. [CHR 0x22] @ item @ [CHR 0x22]) None pre @
      ''"$event.tap"'' @
      replace_matches match_event (\<lambda>item. [CHR 0x22] @ item @ [CHR 0x22]) None post\<close>
    by (rule bare_event_pass)
qed

theorem rewrite_card_occurrences_witness:
  \<open>rewrite_card (\<lambda>t. t) (\<lambda>t. t) (''{a: this.count'' @ [CHR 0x0A] @ ''}'') =
     ''{a: "{{count}}"'' @ [CHR 0x0A] @ ''}'' \<and>
   rewrite_card (\<lambda>t. t) (\<lambda>t. t) (''{a: this.count,'' @ [CHR 0x0A] @ '' b: $event.x}'') =
     ''{a: "{{count}}",'' @ [CHR 0x0A] @ '' b: "$event.x"}'' \<and>
   rewrite_card (\<lambda>t. t) (\<lambda>t. t) ''{"a": $event.tap, "b": this.n}'' =
     ''{"a": "$event.tap", "b": "{{n}}}"'' \<and>
   replace_matches match_event_string slice_inner None ''{"a": "$event.detail"}'' =
     ''{"a": $event.detail}'' \<and>
   rewrite_card (\<lambda>t. t) (\<lambda>t. t) ''{"a": "$event.detail"}'' = ''{"a": "$event.detail"}'' \<and>
   replace_matches match_event (\<lambda>item. [CHR 0x22] @ item @ [CHR 0x22]) None
     ''{a: $event.x, b: $event.tap}'' = ''{a: "$event.x", b: "$event.tap"}''\<close>
proof -
  have 1: \<open>rewrite_card (\<lambda>t. t) (\<lambda>t. t) (''{a: '' @ ''this.count'' @ [CHR 0x0A] @ ''}'') =
             ''{a: '' @ ''"{{count}}"'' @ rewrite_card (\<lambda>t. t) (\<lambda>t. t) ([CHR 0x0A] @ ''}'')\<close>
  proof -
    have \<open>''{a: '' @ ''this.count'' @ [CHR 0x0A] @ ''}'' =
            ''{a: '' @ ''this.count'' @ [CHR 0x0A] @ ''}'' \<and>
          untouched ''{a: '' \<and> ends_line ([CHR 0x0A] @ ''}'') \<and>
          ''this.count'' = ''this.count''\<close>
      by (simp add: untouched_def ends_line_def is_line_end_def startsWith_def)
    then show ?thesis
      using rewrite_card_occurrences
        [of "\<lambda>t. t" "''{a: '' @ ''this.count'' @ [CHR 0x0A] @ ''}''" "''{a: ''"
          "[CHR 0x0A] @ ''}''" "\<lambda>t. t"]
      by blast
  qed
  have 2: \<open>rewrite_card (\<lambda>t. t) (\<lambda>t. t)
             (''{a: '' @ ''this.count,'' @ [CHR 0x0A] @ '' b: $event.x}'') =
             ''{a: '' @ ''"{{count}}",'' @
             rewrite_card (\<lambda>t. t) (\<lambda>t. t) ([CHR 0x0A] @ '' b: $event.x}'')\<close>
  proof -
    have \<open>''{a: '' @ ''this.count,'' @ [CHR 0x0A] @ '' b: $event.x}'' =
            ''{a: '' @ ''this.count,'' @ [CHR 0x0A] @ '' b: $event.x}'' \<and>
          untouched ''{a: '' \<and> ends_line ([CHR 0x0A] @ '' b: $event.x}'') \<and>
          ''this.count'' = ''this.count''\<close>
      by (simp add: untouched_def ends_line_def is_line_end_def startsWith_def)
    then show ?thesis
      using rewrite_card_occurrences
        [of "\<lambda>t. t" "''{a: '' @ ''this.count,'' @ [CHR 0x0A] @ '' b: $event.x}''" "''{a: ''"
          "[CHR 0x0A] @ '' b: $event.x}''" "\<lambda>t. t"]
      by blast
  qed
  have 3: \<open>rewrite_card (\<lambda>t. t) (\<lambda>t. t) (''{"a": '' @ ''$event.tap'' @ '', "b": this.n}'') =
             ''{"a": '' @ ''"$event.tap"'' @
             rewrite_card (\<lambda>t. t) (\<lambda>t. t) '', "b": this.n}''\<close>
  proof -
    have \<open>untouched ''{"a": '' \<and> \<not> after_quote ''{"a": '' \<and> ends_word '', "b": this.n}''\<close>
      by code_simp
    then show ?thesis
      using rewrite_card_occurrences
        [of "\<lambda>t. t" \<open>''{"a": '' @ ''$event.tap'' @ '', "b": this.n}''\<close> \<open>''{"a": ''\<close>
          \<open>'', "b": this.n}''\<close> "\<lambda>t. t"]
      by blast
  qed
  have 4: \<open>replace_matches match_event_string slice_inner None
             (''{"a": '' @ ''"$event.detail"'' @ ''}'') =
             ''{"a": '' @ ''$event.detail'' @
             replace_matches match_event_string slice_inner None ''}'' \<and>
           rewrite_card (\<lambda>t. t) (\<lambda>t. t) (''{"a": '' @ ''"$event.detail"'' @ ''}'') =
             ''{"a": '' @ ''"$event.detail"'' @ rewrite_card (\<lambda>t. t) (\<lambda>t. t) ''}''\<close>
  proof -
    have around: \<open>''{"a": '' @ ''"$event.detail"'' @ ''}'' =
                    ''{"a": '' @ ''"$event.detail"'' @ ''}'' \<and>
                  untouched ''{"a": '' \<and> CHR 0x22 \<notin> set (rest_of_line ''}'') \<and>
                  ends_word ''}''\<close>
      by code_simp
    note occurrences = rewrite_card_occurrences
        [of "\<lambda>t. t" \<open>''{"a": '' @ ''"$event.detail"'' @ ''}''\<close> \<open>''{"a": ''\<close> \<open>''}''\<close>
          "\<lambda>t. t"]
    show ?thesis
      by (rule mp [OF conjunct1 [OF conjunct2 [OF conjunct2 [OF conjunct2 [OF occurrences]]]]
            around])
  qed
  have 5: \<open>replace_matches match_event (\<lambda>item. [CHR 0x22] @ item @ [CHR 0x22]) None
             (''{a: $event.x, b: '' @ ''$event.tap'' @ ''}'') =
           replace_matches match_event (\<lambda>item. [CHR 0x22] @ item @ [CHR 0x22]) None
             ''{a: $event.x, b: '' @
           ''"$event.tap"'' @
           replace_matches match_event (\<lambda>item. [CHR 0x22] @ item @ [CHR 0x22]) None ''}''\<close>
  proof -
    have after: "ends_word ''}''"
      by code_simp
    note occurrences = rewrite_card_occurrences
        [of "\<lambda>t. t" "[]" "''{a: $event.x, b: ''" "''}''" "\<lambda>t. t"]
    show ?thesis
      by (rule mp [OF conjunct2 [OF conjunct2 [OF conjunct2 [OF conjunct2 [OF occurrences]]]]
            after])
  qed
  have rest:
    \<open>rewrite_card (\<lambda>t. t) (\<lambda>t. t) ([CHR 0x0A] @ ''}'') = [CHR 0x0A] @ ''}''\<close>
    \<open>rewrite_card (\<lambda>t. t) (\<lambda>t. t) ([CHR 0x0A] @ '' b: $event.x}'') =
       [CHR 0x0A] @ '' b: "$event.x"}''\<close>
    \<open>rewrite_card (\<lambda>t. t) (\<lambda>t. t) '', "b": this.n}'' = '', "b": "{{n}}}"''\<close>
    \<open>replace_matches match_event_string slice_inner None ''}'' = ''}''\<close>
    \<open>rewrite_card (\<lambda>t. t) (\<lambda>t. t) ''}'' = ''}''\<close>
    \<open>replace_matches match_event (\<lambda>item. [CHR 0x22] @ item @ [CHR 0x22]) None
       ''{a: $event.x, b: '' = ''{a: "$event.x", b: ''\<close>
    \<open>replace_matches match_event (\<lambda>item. [CHR 0x22] @ item @ [CHR 0x22]) None ''}'' = ''}''\<close>
    by code_simp+
  show ?thesis
    using 1 2 3 4 5 unfolding rest by simp
qed

text \<open>
  The claim as the specification states it fails. The rewriting as a whole does not
  strip the quotes of a quoted event literal. The binding takes the rest of the line:
  a closing brace after \<open>this.count\<close> ends up inside the quotes, and an earlier \<open>this.\<close>
  on the line takes the literal into its own binding. After \<open>$event.\<close> the literal is
  part of an event name and is not bound at all. And a quoted event literal that another
  quoted text follows on the line is stripped up to the last quote of the line.
\<close>

theorem card_rewriting_differs:
  \<open>rewrite_card (\<lambda>t. t) (\<lambda>t. t) ''"$event.detail"'' = ''"$event.detail"'' \<and>
   rewrite_card (\<lambda>t. t) (\<lambda>t. t) ''"$event.detail"'' \<noteq> ''$event.detail'' \<and>
   rewrite_card (\<lambda>t. t) (\<lambda>t. t) ''{a: this.count}'' = ''{a: "{{count}}}"'' \<and>
   rewrite_card (\<lambda>t. t) (\<lambda>t. t) ''this.a + this.count'' = ''"{{a + count}}"'' \<and>
   rewrite_card (\<lambda>t. t) (\<lambda>t. t) ''$event.this.count'' = ''"$event.this".count'' \<and>
   rewrite_card (\<lambda>t. t) (\<lambda>t. t) ''{"a": "$event.detail", "b": "c"}'' =
     ''{"a": "$event.detail"", "b": "c}''\<close>
  by code_simp

lemma consume_lines_none:
  "(\<forall>l. i < l \<and> l \<le> i + length ls \<longrightarrow> \<not> truthy_str (pos_source (smc l 0))) \<Longrightarrow>
     consume_lines smc i ls acc = acc"
proof (induction ls arbitrary: i)
  case Nil
  then show ?case by simp
next
  case (Cons a ls)
  have "\<not> truthy_str (pos_source (smc (i + 1) 0))"
    using Cons.prems by simp
  moreover have "consume_lines smc (i + 1) ls acc = acc"
    using Cons.prems by (intro Cons.IH) simp
  ultimately show ?case by simp
qed

lemma five_lines:
  assumes "5 \<le> length (xs :: 'a list)"
  obtains a b c d e rest where "xs = a # b # c # d # e # rest"
proof -
  from assms obtain a x1 where "xs = a # x1" "4 \<le> length x1" by (cases xs) auto
  moreover then obtain b x2 where "x1 = b # x2" "3 \<le> length x2" by (cases x1) auto
  moreover then obtain c x3 where "x2 = c # x3" "2 \<le> length x3" by (cases x2) auto
  moreover then obtain d x4 where "x3 = d # x4" "1 \<le> length x4" by (cases x3) auto
  moreover then obtain e x5 where "x4 = e # x5" by (cases x4) auto
  ultimately show ?thesis using that by blast
qed

lemma line_keys:
  "''line-'' @ string_of_nat 2 @ ''-column-'' @ string_of_nat 0 = ''line-2-column-0''"
  "''line-'' @ string_of_nat 5 @ ''-column-'' @ string_of_nat 0 = ''line-5-column-0''"
  by code_simp+

lemma line_key_not_index: "array_index ''line-2-column-0'' = None" "array_index ''line-5-column-0'' = None"
  by code_simp+

lemma js_put_line_keys:
  "js_put [] ''line-2-column-0'' v = [(''line-2-column-0'', v)]"
  "js_put [(''line-2-column-0'', v)] ''line-5-column-0'' w =
     [(''line-2-column-0'', v), (''line-5-column-0'', w)]"
  by (simp_all add: js_put_def has_key_def line_key_not_index)

lemma consume_five:
  assumes "\<not> truthy_str (pos_source (smc 1 0))" and "truthy_str (pos_source (smc 2 0))"
    and "\<not> truthy_str (pos_source (smc 3 0))" and "\<not> truthy_str (pos_source (smc 4 0))"
    and "truthy_str (pos_source (smc 5 0))"
  shows "consume_lines smc 0 (a # b # c # d # e # rest)
           \<lparr>cm_source = None, cm_original = [], cm_generated = [], cm_mapping = [],
            cm_sourcesContent = sc\<rparr> =
         consume_lines smc 5 rest
           \<lparr>cm_source = pos_source (smc 5 0),
            cm_original = [(pos_line (smc 2 0), pos_column (smc 2 0)),
                           (pos_line (smc 5 0), pos_column (smc 5 0))],
            cm_generated = [(2, 0), (5, 0)],
            cm_mapping = [(''line-2-column-0'', pos_line (smc 2 0), pos_column (smc 2 0)),
                          (''line-5-column-0'', pos_line (smc 5 0), pos_column (smc 5 0))],
            cm_sourcesContent = sc\<rparr>"
proof -
  have 1: "consume_lines smc 0 (a # r) acc = consume_lines smc 1 r acc" for acc r
    using assms(1) by (simp del: One_nat_def)
  have 2: "consume_lines smc 1 (b # r)
             \<lparr>cm_source = None, cm_original = [], cm_generated = [], cm_mapping = [],
              cm_sourcesContent = sc\<rparr> =
           consume_lines smc 2 r
             \<lparr>cm_source = pos_source (smc 2 0),
              cm_original = [(pos_line (smc 2 0), pos_column (smc 2 0))],
              cm_generated = [(2, 0)],
              cm_mapping = [(''line-2-column-0'', pos_line (smc 2 0), pos_column (smc 2 0))],
              cm_sourcesContent = sc\<rparr>" for r
    using assms(2) line_keys(1) by (simp add: Let_def js_put_line_keys del: One_nat_def)
  have 3: "consume_lines smc 2 (c # r) acc = consume_lines smc 3 r acc" for acc r
    using assms(3) by simp
  have 4: "consume_lines smc 3 (d # r) acc = consume_lines smc 4 r acc" for acc r
    using assms(4) by simp
  have 5: "consume_lines smc 4 (e # r)
             \<lparr>cm_source = pos_source (smc 2 0),
              cm_original = [(pos_line (smc 2 0), pos_column (smc 2 0))],
              cm_generated = [(2, 0)],
              cm_mapping = [(''line-2-column-0'', pos_line (smc 2 0), pos_column (smc 2 0))],
              cm_sourcesContent = sc\<rparr> =
           consume_lines smc 5 r
           \<lparr>cm_source = pos_source (smc 5 0),
            cm_original = [(pos_line (smc 2 0), pos_column (smc 2 0)),
                           (pos_line (smc 5 0), pos_column (smc 5 0))],
            cm_generated = [(2, 0), (5, 0)],
            cm_mapping = [(''line-2-column-0'', pos_line (smc 2 0), pos_column (smc 2 0)),
                          (''line-5-column-0'', pos_line (smc 5 0), pos_column (smc 5 0))],
            cm_sourcesContent = sc\<rparr>" for r
    using assms(5) line_keys(2) by (simp add: Let_def js_put_line_keys)
  show ?thesis
    unfolding 1 2 3 4 5 ..
qed

text \<open>
  C9. When the generated text has at least five lines and, among its lines, exactly the
  lines 2 and 5 have an original position at column 0, the position map has exactly two
  entries, under the keys of line 2 and line 5, each with the original line and column;
  no other line leaves an entry.
\<close>

theorem consumeMap_sparse:
  assumes "5 \<le> length (splitSourceLine target)"
    and "\<forall>l. 1 \<le> l \<and> l \<le> length (splitSourceLine target) \<longrightarrow>
           (truthy_str (pos_source (smc l 0)) \<longleftrightarrow> l = 2 \<or> l = 5)"
  shows "cm_mapping (consumeMap smc sc target) =
           [(''line-2-column-0'', pos_line (smc 2 0), pos_column (smc 2 0)),
            (''line-5-column-0'', pos_line (smc 5 0), pos_column (smc 5 0))] \<and>
         cm_generated (consumeMap smc sc target) = [(2, 0), (5, 0)] \<and>
         cm_original (consumeMap smc sc target) =
           [(pos_line (smc 2 0), pos_column (smc 2 0)),
            (pos_line (smc 5 0), pos_column (smc 5 0))] \<and>
         length (cm_mapping (consumeMap smc sc target)) = 2"
proof -
  obtain a b c d e rest where lines: "splitSourceLine target = a # b # c # d # e # rest"
    using assms(1) by (rule five_lines)
  have t: "\<not> truthy_str (pos_source (smc 1 0))" "truthy_str (pos_source (smc 2 0))"
    "\<not> truthy_str (pos_source (smc 3 0))" "\<not> truthy_str (pos_source (smc 4 0))"
    "truthy_str (pos_source (smc 5 0))"
    using assms(2) lines by (simp_all del: One_nat_def)
  have none: "consume_lines smc 5 rest acc = acc" for acc
    using assms(2) lines by (intro consume_lines_none) simp
  have "consumeMap smc sc target =
          \<lparr>cm_source = pos_source (smc 5 0),
           cm_original = [(pos_line (smc 2 0), pos_column (smc 2 0)),
                          (pos_line (smc 5 0), pos_column (smc 5 0))],
           cm_generated = [(2, 0), (5, 0)],
           cm_mapping = [(''line-2-column-0'', pos_line (smc 2 0), pos_column (smc 2 0)),
                         (''line-5-column-0'', pos_line (smc 5 0), pos_column (smc 5 0))],
           cm_sourcesContent = sc\<rparr>"
    unfolding consumeMap_def lines
    using consume_five [of smc a b c d e rest sc] t none by (simp del: consume_lines.simps)
  then show ?thesis by simp
qed

theorem consumeMap_sparse_witness:
  "cm_mapping (consumeMap sample_positions [] sample_generated) =
     [(''line-2-column-0'', Some 10, Some 4), (''line-5-column-0'', Some 12, Some 0)] \<and>
   cm_generated (consumeMap sample_positions [] sample_generated) = [(2, 0), (5, 0)] \<and>
   length (cm_mapping (consumeMap sample_positions [] sample_generated)) = 2"
proof -
  have lines: "splitSourceLine sample_generated = [''a'', ''b'', ''c'', ''d'', ''e'', ''f'']"
    by code_simp
  have "5 \<le> length (splitSourceLine sample_generated)"
    by (simp add: lines)
  moreover have "\<forall>l. 1 \<le> l \<and> l \<le> length (splitSourceLine sample_generated) \<longrightarrow>
      (truthy_str (pos_source (sample_positions l 0)) \<longleftrightarrow> l = 2 \<or> l = 5)"
    by (simp add: sample_positions_def truthy_str_def)
  ultimately show ?thesis
    using consumeMap_sparse [of sample_generated sample_positions "[]"]
    by (simp add: sample_positions_def)
qed

lemma ok_entry_object: "ok_entry v \<Longrightarrow> is_object v"
  by (cases v) (auto simp: ok_entry_def has_own_default_def is_object_def split: if_splits)

lemma ok_default_entry: "ok_entry default_entry"
  by (simp add: ok_entry_def default_entry_def has_own_default_def has_key_def)

lemma own_replace_same:
  "has_key kvs k \<Longrightarrow> own (map (\<lambda>p. if fst p = k then (k, v) else p) kvs) k = v"
  by (induction kvs) (auto simp: own_def has_key_def)

lemma own_replace_other:
  "k' \<noteq> k \<Longrightarrow> own (map (\<lambda>p. if fst p = k then (k, v) else p) kvs) k' = own kvs k'"
  by (induction kvs) (auto simp: own_def)

lemma keys_replace: "map fst (map (\<lambda>p. if fst p = k then (k, v) else p) kvs) = map fst kvs"
  by (induction kvs) auto

lemma js_put_existing:
  "has_key kvs k \<Longrightarrow> js_put kvs k v = map (\<lambda>p. if fst p = k then (k, v) else p) kvs"
  by (simp add: js_put_def)

lemma set_insert_index: "set (insert_index n kv ps) = insert kv (set ps)"
  by (induction ps) (auto split: option.splits)

lemma snd_js_put: "p \<in> set (js_put kvs k v) \<Longrightarrow> p \<in> set kvs \<or> p = (k, v)"
  by (auto simp: js_put_def set_insert_index split: if_splits option.splits)

lemma own_in_set: "has_key kvs k \<Longrightarrow> (k, own kvs k) \<in> set kvs"
  unfolding has_key_def own_def
  by (induction kvs) (auto split: if_splits)

lemma props_object_loop_fixed:
  assumes "\<forall>k \<in> set ks. ok_entry (own kvs k)"
  shows "props_object_loop h cc ks kvs st = (st, Inr (JObj kvs))"
  using assms
proof (induction ks)
  case Nil
  then show ?case by simp
next
  case (Cons k ks)
  then have ok: "ok_entry (own kvs k)" by simp
  then have "is_object (own kvs k)" "has_own_default (own kvs k) = Inr True"
    by (simp_all add: ok_entry_object) (simp add: ok_entry_def)
  then show ?case using Cons by simp
qed

lemma props_object_loop_result:
  assumes "props_object_loop h cc ks kvs st = (st', Inr v)"
    and "set ks \<subseteq> set (map fst kvs)"
    and "\<forall>k \<in> S. ok_entry (own kvs k)"
  shows "\<exists>kvs'. v = JObj kvs' \<and> map fst kvs' = map fst kvs \<and>
           (\<forall>k \<in> S \<union> set ks. ok_entry (own kvs' k))"
  using assms
proof (induction ks arbitrary: kvs st S)
  case Nil
  then show ?case by auto
next
  case (Cons k ks)
  from Cons.prems(2) have hk: "has_key kvs k" and sub: "set ks \<subseteq> set (map fst kvs)"
    by (auto simp: has_key_def)
  define st1 where "st1 =
    (if \<not> is_object (own kvs k) then
       card_warn h cc
         ''WARNING: The props default value type can only be Object in custom elements.'' st
     else st)"
  from Cons.prems(1) obtain has where has: "has_own_default (own kvs k) = Inr has"
    by (cases "has_own_default (own kvs k)") (auto simp: Let_def)
  let ?kvs2 = "if \<not> has then js_put kvs k default_entry else kvs"
  have run: "props_object_loop h cc ks ?kvs2 st1 = (st', Inr v)"
    using Cons.prems(1) has by (simp add: Let_def st1_def)
  have keys2: "map fst ?kvs2 = map fst kvs"
    using hk by (simp add: js_put_existing keys_replace)
  have okk: "ok_entry (own ?kvs2 k)"
  proof (cases has)
    case True
    then show ?thesis using has by (simp add: ok_entry_def)
  next
    case False
    then show ?thesis using hk
      by (simp add: js_put_existing own_replace_same ok_default_entry)
  qed
  have okS: "\<forall>j \<in> S. ok_entry (own ?kvs2 j)"
  proof
    fix j assume "j \<in> S"
    then have "ok_entry (own kvs j)" using Cons.prems(3) by simp
    then show "ok_entry (own ?kvs2 j)"
      using okk hk by (cases "j = k") (simp_all add: js_put_existing own_replace_other)
  qed
  have "\<exists>kvs'. v = JObj kvs' \<and> map fst kvs' = map fst ?kvs2 \<and>
           (\<forall>j \<in> insert k S \<union> set ks. ok_entry (own kvs' j))"
    using run sub keys2 okk okS by (intro Cons.IH) auto
  then show ?case using keys2 by auto
qed

lemma props_array_loop_result:
  assumes "props_array_loop h cc items obj st = (st', Inr v)"
    and "\<forall>p \<in> set obj. snd p = default_entry"
  shows "\<exists>obj'. v = JObj obj' \<and> (\<forall>p \<in> set obj'. snd p = default_entry)"
  using assms
proof (induction items arbitrary: obj st)
  case Nil
  then show ?case by auto
next
  case (Cons item items)
  from Cons.prems(1) obtain k where k: "to_text item = Inr k"
    by (cases "to_text item") (auto simp: Let_def)
  let ?obj2 = "if k = ''__proto__'' then obj else js_put obj k default_entry"
  have all2: "\<forall>p \<in> set ?obj2. snd p = default_entry"
    using Cons.prems(2) by (auto dest: snd_js_put)
  obtain st1 where "props_array_loop h cc items ?obj2 st1 = (st', Inr v)"
    using Cons.prems(1) k by (simp add: Let_def)
  then show ?case using all2 by (rule Cons.IH)
qed

lemma all_default_ok:
  assumes "\<forall>p \<in> set obj. snd p = default_entry" and "k \<in> set (map fst obj)"
  shows "ok_entry (own obj k)"
proof -
  have "(k, own obj k) \<in> set obj" using assms(2) by (intro own_in_set) (simp add: has_key_def)
  then have "own obj k = default_entry" using assms(1) by fastforce
  then show ?thesis by (simp add: ok_default_entry)
qed

lemma replacePropsArray_object_fixed:
  assumes "\<forall>k \<in> set (map fst kvs). ok_entry (own kvs k)"
  shows "replacePropsArray h cc (JObj kvs) st = (st, Inr (JObj kvs))"
  using props_object_loop_fixed [OF assms] by (simp add: replacePropsArray_def truthy_js_def)

lemma normalized_props_ok:
  assumes "normalized_props kvs" and "k \<in> set (map fst kvs)"
  shows "ok_entry (own kvs k)"
proof -
  have "(k, own kvs k) \<in> set kvs" using assms(2) by (intro own_in_set) (simp add: has_key_def)
  then have "case own kvs k of JObj es \<Rightarrow> has_key es ''default'' \<and> \<not> has_key es ''hasOwnProperty''
               | _ \<Rightarrow> False"
    using assms(1) by (fastforce simp: normalized_props_def list_all_iff)
  then show ?thesis
    by (cases "own kvs k") (simp_all add: ok_entry_def has_own_default_def)
qed

lemma replacePropsArray_idempotent:
  assumes "replacePropsArray h cc p st = (st1, Inr v)"
  shows "snd (replacePropsArray h cc v st2) = Inr v \<and>
         (is_object v \<longrightarrow> replacePropsArray h cc v st2 = (st2, Inr v))"
proof (cases "truthy_js p")
  case False
  then have "v = p" using assms by (simp add: replacePropsArray_def)
  then show ?thesis using False
    by (cases p) (simp_all add: replacePropsArray_def truthy_js_def is_object_def)
next
  case True
  show ?thesis
  proof (cases p)
    case (JArr items)
    then have "props_array_loop h cc items [] st = (st1, Inr v)"
      using assms True by (simp add: replacePropsArray_def)
    then obtain obj where obj: "v = JObj obj" "\<forall>p \<in> set obj. snd p = default_entry"
      using props_array_loop_result [of h cc items "[]" st st1 v] by auto
    then have "\<forall>k \<in> set (map fst obj). ok_entry (own obj k)"
      using all_default_ok [of obj] by blast
    then have "replacePropsArray h cc (JObj obj) st2 = (st2, Inr (JObj obj))"
      by (rule replacePropsArray_object_fixed)
    then show ?thesis using obj by simp
  next
    case (JObj kvs)
    then have "props_object_loop h cc (map fst kvs) kvs st = (st1, Inr v)"
      using assms by (simp add: replacePropsArray_def truthy_js_def)
    then obtain kvs' where r: "v = JObj kvs'" "map fst kvs' = map fst kvs"
        "\<forall>k \<in> set (map fst kvs). ok_entry (own kvs' k)"
      using props_object_loop_result [of h cc "map fst kvs" kvs st st1 v "{}"] by auto
    then have "replacePropsArray h cc (JObj kvs') st2 = (st2, Inr (JObj kvs'))"
      by (intro replacePropsArray_object_fixed) simp
    then show ?thesis using r by simp
  qed (use assms True in \<open>auto simp: replacePropsArray_def truthy_js_def is_object_def\<close>)
qed

lemma replacePropsArray_names:
  "replacePropsArray h cc (JArr [JStr ''a'', JStr ''b'']) st =
     (st, Inr (JObj [(''a'', JObj [(''default'', JStr [])]),
                     (''b'', JObj [(''default'', JStr [])])]))"
proof -
  have not_index: "array_index ''a'' = None" "array_index ''b'' = None" by code_simp+
  show ?thesis
    by (simp add: replacePropsArray_def truthy_js_def typeof_def js_put_def has_key_def not_index
        default_entry_def)
qed

text \<open>
  C8. The props value \<open>["a", "b"]\<close> is normalized to the object with the entries \<open>a\<close>
  and \<open>b\<close>, each \<open>{default: ''}\<close>, without a diagnostic. An object of objects in
  which every entry has its own \<open>default\<close> (and the inherited \<^verbatim>\<open>hasOwnProperty\<close>) is
  returned as it is, without a diagnostic. And whatever the normalization returns, it
  returns again when applied to it; for an object, with the state unchanged.
\<close>

theorem replacePropsArray_normal_form:
  "replacePropsArray h cc (JArr [JStr ''a'', JStr ''b'']) st =
     (st, Inr (JObj [(''a'', JObj [(''default'', JStr [])]),
                     (''b'', JObj [(''default'', JStr [])])])) \<and>
   (normalized_props kvs \<longrightarrow> replacePropsArray h cc (JObj kvs) st = (st, Inr (JObj kvs))) \<and>
   (replacePropsArray h cc p st = (st1, Inr v) \<longrightarrow>
      snd (replacePropsArray h cc v st2) = Inr v \<and>
      (is_object v \<longrightarrow> replacePropsArray h cc v st2 = (st2, Inr v)))"
proof -
  have "normalized_props kvs \<Longrightarrow> replacePropsArray h cc (JObj kvs) st = (st, Inr (JObj kvs))"
    using normalized_props_ok [of kvs] by (intro replacePropsArray_object_fixed) blast
  then show ?thesis
    using replacePropsArray_names [of h cc st] replacePropsArray_idempotent [of h cc p st st1 v st2]
    by blast
qed

theorem replacePropsArray_normal_form_witness:
  "replacePropsArray (sample_card_host (Some ''card'') (\<lambda>t. Inr None) (\<lambda>t. Inr JNull))
     sample_card_context
     (JObj [(''a'', JObj [(''default'', JStr [])]), (''b'', JObj [(''default'', JStr [])])])
     empty_card_state =
     (empty_card_state,
      Inr (JObj [(''a'', JObj [(''default'', JStr [])]),
                 (''b'', JObj [(''default'', JStr [])])])) \<and>
   normalized_props
     [(''a'', JObj [(''default'', JStr [])]), (''b'', JObj [(''default'', JStr [])])]"
  using replacePropsArray_normal_form
    [of "sample_card_host (Some ''card'') (\<lambda>t. Inr None) (\<lambda>t. Inr JNull)" sample_card_context
      empty_card_state
      "[(''a'', JObj [(''default'', JStr [])]), (''b'', JObj [(''default'', JStr [])])]"
      "JArr [JStr ''a'', JStr ''b'']" empty_card_state
      "JObj [(''a'', JObj [(''default'', JStr [])]), (''b'', JObj [(''default'', JStr [])])]"
      empty_card_state]
  by (simp add: normalized_props_def has_key_def is_object_def)





lemma conversion_failure_escapes:
  assumes "card_device_level h = Some ''card''" and "parseCard h cc source st = (st1, Inl e)"
    and "error_text h e = Inl e'"
  shows "json_loader h cc source st = (st1, Inl e')"
  using assms by (simp add: json_loader_def)

lemma json_loader_returns:
  assumes "card_device_level h = Some ''card''" and "parseCard h cc source st = (st1, Inr text)"
  shows "json_loader h cc source st = (st1, Inr ''{}'')"
  using assms by (simp add: json_loader_def)

lemma card_module_text:
  "card_device_level h = Some ''card'' \<Longrightarrow> json_loader h cc source st = (st1, Inr text) \<Longrightarrow>
   text = ''{}''"
  by (auto simp: json_loader_def split: prod.splits sum.splits)

lemma json_loader_outside_card:
  "card_device_level h \<noteq> Some ''card'' \<Longrightarrow>
   json_loader h cc source st = (st, Inr (''module.exports = '' @ source))"
  by (simp add: json_loader_def)




text \<open>
  C10, on the code. In card mode the loader returns \<open>{}\<close> whenever it returns, and the
  sections reach the sink through the calls of \<^verbatim>\<open>compileJson\<close>; but it does not return
  for every input. When the evaluation throws a Symbol, the conversion of the caught
  value to text throws in the \<^verbatim>\<open>catch\<close> block and the loader throws; when the
  evaluation returns, the loader returns \<open>{}\<close> after the calls for the sections.
\<close>

theorem card_loader_throws:
  \<open>json_loader
     ((sample_card_host (Some ''card'') (\<lambda>t. Inl (Thrown ''Symbol(boom)''))
         (\<lambda>t. Inr JNull))\<lparr>error_text := symbol_text\<rparr>)
     sample_card_context ''(function () { throw Symbol("boom") })()'' empty_card_state =
     (empty_card_state, Inl (Thrown ''TypeError: Cannot convert a Symbol value to a string'')) \<and>
   json_loader
     (sample_card_host (Some ''card'') (\<lambda>t. Inr (Some ''{"data":{"n":1}}''))
        (\<lambda>t. Inr (JObj [(''data'', JObj [(''n'', JNum 1)])])))
     sample_card_context ''{data: {n: 1}}'' empty_card_state =
     (\<lparr>cs_emitted = [],
       cs_calls =
         [[ArgStr ''init'', ArgStr ''/out/pages/index/index.json''],
          [ArgStr ''actions'', ArgStr ''/out/pages/index/index.json'', ArgVal JUndefined,
           ArgStr ''actions''],
          [ArgStr ''data'', ArgStr ''/out/pages/index/index.json'',
           ArgVal (JObj [(''n'', JNum 1)]), ArgStr ''data''],
          [ArgStr ''apiVersion'', ArgStr ''/out/pages/index/index.json'', ArgVal JUndefined,
           ArgStr ''apiVersion'']]\<rparr>,
      Inr ''{}'')\<close>
  by code_simp

end
